theory Spec2Isabelle
  imports Complex_Main "HOL-Library.Char_ord" "HOL-Library.List_Lexorder" "HOL-Library.Product_Lexorder"
begin

section \<open>Schedule rules and the current instant\<close>

text \<open>
  JavaScript compares strings with \<open><\<close>, \<open><=\<close>, \<open>>=\<close> lexicographically by code unit, a
  proper prefix being smaller. On \<^typ>\<open>string\<close> this is the order of
  \<open>HOL-Library.List_Lexorder\<close> over \<open>HOL-Library.Char_ord\<close>.
\<close>

text \<open>The interface \<open>ScheduleItem\<close> of schedule.service.ts (\<open>PlaylistScheduleItem\<close> in
  playback.service.ts, where \<open>days_of_week\<close> is optional).\<close>

record ScheduleItem =
  playlist_id :: string
  start_time :: string
  end_time :: string
  priority :: int
  days_of_week :: "string list option"

datatype weekday = Monday | Tuesday | Wednesday | Thursday | Friday | Saturday | Sunday

text \<open>What \<open>new Date()\<close> is read for: the local weekday and the local wall-clock time.\<close>

record instant =
  weekday :: weekday
  hours :: nat
  minutes :: nat
  seconds :: nat

text \<open>\<open>toLocaleDateString('en-US', { weekday: 'long' })\<close>.\<close>

fun weekdayName :: "weekday \<Rightarrow> string" where
  "weekdayName Monday = ''Monday''"
| "weekdayName Tuesday = ''Tuesday''"
| "weekdayName Wednesday = ''Wednesday''"
| "weekdayName Thursday = ''Thursday''"
| "weekdayName Friday = ''Friday''"
| "weekdayName Saturday = ''Saturday''"
| "weekdayName Sunday = ''Sunday''"

definition digitChar :: "nat \<Rightarrow> char" where
  "digitChar d = char_of (48 + d)"

definition pad2 :: "nat \<Rightarrow> string" where
  "pad2 n = [digitChar (n div 10), digitChar (n mod 10)]"

text \<open>The first eight characters of \<open>Date.prototype.toTimeString()\<close>, \<open>"HH:MM:SS"\<close>; the
  time-zone suffix is cut off by every \<open>slice\<close> of the source.\<close>

definition toTimeString :: "instant \<Rightarrow> string" where
  "toTimeString now = pad2 (hours now) @ '':'' @ pad2 (minutes now) @ '':'' @ pad2 (seconds now)"

definition currentTimeExact :: "instant \<Rightarrow> string" where
  "currentTimeExact now = take 8 (toTimeString now)"

definition currentTime :: "instant \<Rightarrow> string" where
  "currentTime now = take 5 (currentTimeExact now)"

definition currentDay :: "instant \<Rightarrow> string" where
  "currentDay now = weekdayName (weekday now)"

text \<open>A rule time in the fixed format \<open>"HH:MM"\<close>.\<close>

definition hhmm :: "nat \<Rightarrow> nat \<Rightarrow> string" where
  "hhmm h m = pad2 h @ '':'' @ pad2 m"

definition allDays :: "string list" where
  "allDays = [''Monday'', ''Tuesday'', ''Wednesday'', ''Thursday'', ''Friday'', ''Saturday'', ''Sunday'']"

text \<open>\<open>schedule.days_of_week || [...]\<close>: an array, even an empty one, is truthy; only an
  absent field takes the seven-day default.\<close>

definition days :: "ScheduleItem \<Rightarrow> string list" where
  "days schedule = (case days_of_week schedule of None \<Rightarrow> allDays | Some ds \<Rightarrow> ds)"

definition isActiveDay :: "string \<Rightarrow> ScheduleItem \<Rightarrow> bool" where
  "isActiveDay day schedule = (day \<in> set (days schedule))"

definition isActiveTime :: "string \<Rightarrow> ScheduleItem \<Rightarrow> bool" where
  "isActiveTime time schedule = (time \<ge> start_time schedule \<and> time \<le> end_time schedule)"

text \<open>The matching condition in the words of the specification, for comparison with the
  code: the weekday of the instant is among the rule's \<open>daysOfWeek\<close> (an absent \<open>daysOfWeek\<close>
  stands for all seven weekdays), and \<open>startTime \<le> currentTime \<le> endTime\<close>, where
  \<open>currentTime\<close> is the instant at minute resolution, \<open>"HH:MM"\<close>.\<close>

definition ruleMatches :: "instant \<Rightarrow> ScheduleItem \<Rightarrow> bool" where
  "ruleMatches now r =
     ((case days_of_week r of None \<Rightarrow> True | Some ds \<Rightarrow> weekdayName (weekday now) \<in> set ds)
      \<and> start_time r \<le> hhmm (hours now) (minutes now)
      \<and> hhmm (hours now) (minutes now) \<le> end_time r)"

section \<open>ScheduleService.checkSchedule\<close>

record ScreenSchedule =
  upcoming :: "ScheduleItem list"

text \<open>The fields of \<open>Screen\<close> (screen.model.ts) that the schedule code reads.\<close>

record Screen =
  current_playlist :: "string option"
  schedule :: "ScreenSchedule option"

text \<open>What an observable of the directory client delivers: an error or one value.\<close>

datatype 'a response = Failed | Response 'a

text \<open>JavaScript truthiness of a \<open>string | null\<close>: \<open>null\<close> and \<open>""\<close> are falsy.\<close>

fun truthy :: "string option \<Rightarrow> bool" where
  "truthy None = False"
| "truthy (Some s) = (s \<noteq> [])"

definition MAX_SAFE_INTEGER :: int where
  "MAX_SAFE_INTEGER = 9007199254740991"

text \<open>The private fields of \<open>ScheduleService\<close>; \<open>serverUpdates\<close> records, in order, the
  playlist ids that \<open>updateCurrentPlaylist\<close> has written to the screens table.\<close>

record ScheduleService =
  deviceId :: "string option"
  currentPlaylistId :: "string option"
  serverUpdates :: "string list"

text \<open>The \<open>for\<close> loop of \<open>checkSchedule\<close> over \<open>screen.schedule.upcoming\<close>; the accumulator is
  \<open>(highestPrioritySchedule, highestPriority)\<close>.\<close>

fun scanSchedules ::
  "string \<Rightarrow> string \<Rightarrow> ScheduleItem list \<Rightarrow> ScheduleItem option \<times> int \<Rightarrow> ScheduleItem option \<times> int"
where
  "scanSchedules day time [] acc = acc"
| "scanSchedules day time (s # rest) (highestPrioritySchedule, highestPriority) =
     scanSchedules day time rest
       (if isActiveDay day s \<and> isActiveTime time s \<and> priority s < highestPriority
        then (Some s, priority s)
        else (highestPrioritySchedule, highestPriority))"

definition updateCurrentPlaylist :: "string \<Rightarrow> ScheduleService \<Rightarrow> ScheduleService" where
  "updateCurrentPlaylist playlistId st =
     (if \<not> truthy (deviceId st) then st
      else st\<lparr>serverUpdates := serverUpdates st @ [playlistId]\<rparr>)"

text \<open>\<open>checkSchedule\<close>: the instant read from the clock, the answer of \<open>getScreenById\<close> and the
  service's fields give the emitted boolean and the fields afterwards.\<close>

definition checkSchedule ::
  "instant \<Rightarrow> Screen option response \<Rightarrow> ScheduleService \<Rightarrow> bool \<times> ScheduleService"
where
  "checkSchedule now fetched st =
     (if \<not> truthy (deviceId st) then (False, st)
      else case fetched of
        Failed \<Rightarrow> (False, st)
      | Response None \<Rightarrow> (False, st)
      | Response (Some screen) \<Rightarrow>
         (case schedule screen of
            None \<Rightarrow> (False, st)
          | Some sched \<Rightarrow>
             if upcoming sched = [] then (False, st)
             else
               (case fst (scanSchedules (currentDay now) (currentTime now) (upcoming sched)
                            (None, MAX_SAFE_INTEGER)) of
                  Some highestPrioritySchedule \<Rightarrow>
                    (let newPlaylistId = playlist_id highestPrioritySchedule in
                     if Some newPlaylistId \<noteq> currentPlaylistId st
                     then (True, updateCurrentPlaylist newPlaylistId
                                   (st\<lparr>currentPlaylistId := Some newPlaylistId\<rparr>))
                     else (False, st))
                | None \<Rightarrow>
                    if truthy (current_playlist screen)
                       \<and> currentPlaylistId st \<noteq> current_playlist screen
                    then (True, st\<lparr>currentPlaylistId := current_playlist screen\<rparr>)
                    else (False, st))))"

section \<open>PlaybackService.startPlayback: the schedule block\<close>

text \<open>\<open>String.prototype.localeCompare\<close> depends on the host's collation. It is modelled by the
  code-unit order, with which every collation agrees on strings of the fixed format
  \<open>"HH:MM"\<close> (digits in the same positions around one colon).\<close>

definition localeCompare :: "string \<Rightarrow> string \<Rightarrow> int" where
  "localeCompare a b = (if a < b then - 1 else if a = b then 0 else 1)"

text \<open>The comparator handed to \<open>sort\<close>.\<close>

definition compareSchedules :: "ScheduleItem \<Rightarrow> ScheduleItem \<Rightarrow> int" where
  "compareSchedules a b =
     (if priority a \<noteq> priority b then priority a - priority b
      else localeCompare (start_time a) (start_time b))"

text \<open>\<open>Array.prototype.sort\<close> is stable: elements the comparator does not separate keep their
  order. Insertion from the right gives that result.\<close>

fun insertSchedule :: "ScheduleItem \<Rightarrow> ScheduleItem list \<Rightarrow> ScheduleItem list" where
  "insertSchedule a [] = [a]"
| "insertSchedule a (b # bs) =
     (if compareSchedules a b \<le> 0 then a # b # bs else b # insertSchedule a bs)"

definition sortedSchedules :: "ScheduleItem list \<Rightarrow> ScheduleItem list" where
  "sortedSchedules xs = foldr insertSchedule xs []"

definition activeSchedule :: "instant \<Rightarrow> Screen \<Rightarrow> ScheduleItem option" where
  "activeSchedule now screen =
     (case schedule screen of
        None \<Rightarrow> None
      | Some sched \<Rightarrow>
          if length (upcoming sched) > 0
          then find (\<lambda>s. currentDay now \<in> set (days s)
                        \<and> currentTime now \<ge> start_time s \<and> currentTime now \<le> end_time s)
                 (sortedSchedules (upcoming sched))
          else None)"

section \<open>Playlists\<close>

datatype itemType = Image | Video | Webpage | Ticker
datatype transition = Fade | Slide | NoTransition
datatype scaling = Fit | Fill | Stretch
datatype status = Active | Draft | Archived

text \<open>A JavaScript \<open>number\<close> that holds a duration is taken as a real number; rounding of
  the product with 1000 is left out.\<close>

record ItemSettings =
  transition :: transition
  transitionDuration :: real
  scaling :: scaling
  muted :: "bool option"
  loop :: "bool option"

text \<open>\<open>PlaylistItem\<close> of playlist.model.ts; \<open>content.url\<close> and \<open>content.thumbnail\<close> are
  \<open>content_url\<close> and \<open>content_thumbnail\<close>. The untyped \<open>schedule\<close> is left out.\<close>

record PlaylistItem =
  item_id :: string
  item_type :: itemType
  item_name :: string
  item_duration :: real
  content_url :: string
  content_thumbnail :: "string option"
  item_settings :: ItemSettings

record PlaylistSettings =
  autoPlay :: bool
  playlist_loop :: bool
  defaultMuted :: bool
  transition_type :: transition
  transition_duration :: real
  defaultDuration :: real
  scheduling_enabled :: bool
  scheduling_startDate :: "string option"
  scheduling_endDate :: "string option"
  scheduling_priority :: int

record Playlist =
  id' :: string
  name :: string
  description :: "string option"
  duration :: real
  items :: "PlaylistItem list"
  lastModified :: string
  createdBy :: string
  status :: status
  tags :: "string list option"
  settings :: PlaylistSettings

text \<open>The object \<open>{ ...playlist, timestamp: Date.now() }\<close> that \<open>cachePlaylist\<close> stores: every
  field of the playlist and one more.\<close>

record CachedPlaylist = Playlist +
  timestamp' :: nat

section \<open>ContentSyncService\<close>

record Blob =
  blobSize :: nat
  blobType :: string

record CachedContent =
  url :: string
  localUrl :: string
  size' :: nat
  timestamp :: nat
  type' :: string
  blob :: "Blob option"

text \<open>The IndexedDB database: two object stores, each holding at most one record per key
  (\<open>url\<close>, \<open>id\<close>).\<close>

record IDBDatabase =
  contentStore :: "CachedContent list"
  playlistStore :: "CachedPlaylist list"

text \<open>The fields of the service; \<open>revoked\<close> lists, in order, the URLs handed to
  \<open>URL.revokeObjectURL\<close>.\<close>

record ContentSyncService =
  db :: "IDBDatabase option"
  cacheSizeBytes :: int
  isInitialized :: bool
  blobCache :: "string \<rightharpoonup> string"
  revoked :: "string list"

datatype 'a promise = Resolves 'a | Rejects

datatype 'a notification = Next 'a | Error string | Complete

text \<open>What the surroundings decide during one operation: how the pending \<open>initPromise\<close>
  settles, whether opening a transaction throws, whether a read request fires \<open>onerror\<close>,
  whether a write transaction fails, what \<open>URL.createObjectURL\<close> returns after \<open>"blob:"\<close>
  (\<open>None\<close>: it throws), the outcomes of the successive HTTP attempts for the content, the
  answer for the bundled fallback document, and \<open>Date.now()\<close>; the database that
  \<open>indexedDB.open\<close> delivers when the pending initialisation succeeds; and, for the eviction
  pass, whether opening its transaction throws, whether its cursor request fires \<open>onerror\<close>,
  and whether \<open>store.delete\<close> throws.\<close>

record Env =
  initPromise :: "bool promise"
  transactionThrows :: bool
  requestFails :: bool
  writeFails :: bool
  createObjectURL :: "string option"
  httpGet :: "Blob response list"
  fallbackDocument :: "Playlist response"
  dateNow :: nat
  openedDatabase :: IDBDatabase
  trimTransactionThrows :: bool
  cursorFails :: bool
  deleteThrows :: bool

definition MAX_CACHE_SIZE :: int where
  "MAX_CACHE_SIZE = 1024 * 1024 * 500"

text \<open>\<open>MAX_CACHE_SIZE * 0.7\<close>; the double product is exactly 367001600.\<close>

definition targetSize :: int where
  "targetSize = MAX_CACHE_SIZE * 7 div 10"

definition ensureInitialized :: "Env \<Rightarrow> ContentSyncService \<Rightarrow> bool promise" where
  "ensureInitialized env s = (if isInitialized s then Resolves True else initPromise env)"

text \<open>The service when the promise of \<open>ensureInitialized\<close> has settled. A service that is
  not initialised waits for \<open>initPromise\<close>; when that resolves, \<open>request.onsuccess\<close> of
  \<open>initDatabase\<close> has stored the opened database in \<open>this.db\<close> and set \<open>isInitialized\<close>. (The
  \<open>calculateCacheSize\<close> that \<open>onsuccess\<close> starts is an operation of its own, below.)\<close>

definition initDatabase :: "Env \<Rightarrow> ContentSyncService \<Rightarrow> ContentSyncService" where
  "initDatabase env s =
     (if isInitialized s then s
      else case initPromise env of
        Resolves True \<Rightarrow> s\<lparr>db := Some (openedDatabase env), isInitialized := True\<rparr>
      | Resolves False \<Rightarrow> s
      | Rejects \<Rightarrow> s)"

definition startsWithBlob :: "string \<Rightarrow> bool" where
  "startsWithBlob u = (take 5 u = ''blob:'')"

definition revokeObjectURL :: "string \<Rightarrow> ContentSyncService \<Rightarrow> ContentSyncService" where
  "revokeObjectURL u s = s\<lparr>revoked := revoked s @ [u]\<rparr>"

text \<open>\<open>store.get\<close>, \<open>store.put\<close> and \<open>store.delete\<close> of an object store with key path \<open>key\<close>.\<close>

definition storeGet :: "('a \<Rightarrow> string) \<Rightarrow> string \<Rightarrow> 'a list \<Rightarrow> 'a option" where
  "storeGet key k xs = find (\<lambda>x. key x = k) xs"

definition storePut :: "('a \<Rightarrow> string) \<Rightarrow> 'a \<Rightarrow> 'a list \<Rightarrow> 'a list" where
  "storePut key x xs = filter (\<lambda>y. key y \<noteq> key x) xs @ [x]"

definition storeDelete :: "('a \<Rightarrow> string) \<Rightarrow> string \<Rightarrow> 'a list \<Rightarrow> 'a list" where
  "storeDelete key k xs = filter (\<lambda>y. key y \<noteq> k) xs"

text \<open>\<open>store.index('timestamp').openCursor()\<close>: the records by ascending index key, records
  of one index key by ascending primary key.\<close>

definition timestampCursor :: "IDBDatabase \<Rightarrow> CachedContent list" where
  "timestampCursor d = sort_key (\<lambda>c. (timestamp c, url c)) (contentStore d)"

text \<open>\<open>index.openCursor(null, 'prev')\<close> on the playlist store: the same order reversed.\<close>

definition newestFirst :: "IDBDatabase \<Rightarrow> CachedPlaylist list" where
  "newestFirst d = rev (sort_key (\<lambda>p. (timestamp' p, id' p)) (playlistStore d))"

definition updateCachedUrl :: "Env \<Rightarrow> string \<Rightarrow> string \<Rightarrow> ContentSyncService \<Rightarrow> ContentSyncService" where
  "updateCachedUrl env u newLocalUrl s =
     (case db s of
        None \<Rightarrow> s
      | Some d \<Rightarrow>
          if writeFails env then s
          else (case storeGet url u (contentStore d) of
                  None \<Rightarrow> s
                | Some cachedContent \<Rightarrow>
                    (let s1 = (if localUrl cachedContent \<noteq> [] \<and> localUrl cachedContent \<noteq> newLocalUrl
                                  \<and> startsWithBlob (localUrl cachedContent)
                               then revokeObjectURL (localUrl cachedContent) s else s)
                     in s1\<lparr>db := Some (d\<lparr>contentStore :=
                              storePut url (cachedContent\<lparr>localUrl := newLocalUrl\<rparr>) (contentStore d)\<rparr>)\<rparr>)))"

text \<open>The body of the cursor callback of \<open>trimCache\<close> for one record: delete it from the
  store, revoke its blob URL, drop it from the tracking map.\<close>

definition evict :: "CachedContent \<Rightarrow> ContentSyncService \<Rightarrow> ContentSyncService" where
  "evict content s =
     (let s1 = s\<lparr>db := map_option (\<lambda>d. d\<lparr>contentStore := storeDelete url (url content) (contentStore d)\<rparr>) (db s)\<rparr>;
          s2 = (if localUrl content \<noteq> [] \<and> startsWithBlob (localUrl content)
                then revokeObjectURL (localUrl content) s1 else s1)
      in s2\<lparr>blobCache := (blobCache s2)(url content := None)\<rparr>)"

text \<open>The cursor walk of \<open>trimCache\<close>: the records still ahead of the cursor, and
  \<open>deletedSize\<close>. When \<open>store.delete\<close> throws, the inner \<open>catch\<close> logs and the cursor moves on:
  the record stays, its size is not counted and its URL is not revoked.\<close>

fun trimCursor :: "Env \<Rightarrow> CachedContent list \<Rightarrow> int \<Rightarrow> ContentSyncService \<Rightarrow> ContentSyncService" where
  "trimCursor env [] deletedSize s = s\<lparr>cacheSizeBytes := cacheSizeBytes s - deletedSize\<rparr>"
| "trimCursor env (content # rest) deletedSize s =
     (if cacheSizeBytes s - deletedSize > targetSize
      then (if deleteThrows env then trimCursor env rest deletedSize s
            else trimCursor env rest (deletedSize + int (size' content)) (evict content s))
      else s\<lparr>cacheSizeBytes := cacheSizeBytes s - deletedSize\<rparr>)"

text \<open>\<open>trimCache\<close>. Without a database it returns; when \<open>db.transaction\<close> throws, the outer
  \<open>catch\<close> logs; when the cursor request fails, \<open>request.onerror\<close> logs: in each case nothing
  is removed and the tracked size stays.\<close>

definition trimCache :: "Env \<Rightarrow> ContentSyncService \<Rightarrow> ContentSyncService" where
  "trimCache env s =
     (case db s of
        None \<Rightarrow> s
      | Some d \<Rightarrow>
          if trimTransactionThrows env then s
          else if cursorFails env then s
          else trimCursor env (timestampCursor d) 0 s)"

text \<open>\<open>calculateCacheSize\<close>, started by \<open>initDatabase\<close> on success: the tracked size becomes
  the sum over the store, and above 90% of the budget the cache is trimmed.\<close>

definition calculateCacheSize :: "Env \<Rightarrow> ContentSyncService \<Rightarrow> ContentSyncService" where
  "calculateCacheSize env s =
     (case db s of
        None \<Rightarrow> s
      | Some d \<Rightarrow>
          if transactionThrows env \<or> requestFails env then s
          else
            (let s1 = s\<lparr>cacheSizeBytes := (\<Sum>item\<leftarrow>contentStore d. int (size' item))\<rparr>
             in if 10 * cacheSizeBytes s1 > 9 * MAX_CACHE_SIZE then trimCache env s1 else s1))"

text \<open>\<open>storeContent\<close> up to \<open>store.put\<close>; the boolean tells whether the transaction will
  complete.\<close>

definition storeContent ::
  "Env \<Rightarrow> string \<Rightarrow> string \<Rightarrow> Blob \<Rightarrow> ContentSyncService \<Rightarrow> bool \<times> ContentSyncService"
where
  "storeContent env u lu b s =
     (case db s of
        None \<Rightarrow> (False, s)
      | Some d \<Rightarrow>
          if transactionThrows env \<or> writeFails env then (False, s)
          else (True, s\<lparr>db := Some (d\<lparr>contentStore :=
                  storePut url \<lparr>url = u, localUrl = lu, size' = blobSize b, timestamp = dateNow env,
                                type' = blobType b, blob = Some b\<rparr> (contentStore d)\<rparr>)\<rparr>))"

text \<open>\<open>transaction.oncomplete\<close> of \<open>storeContent\<close>.\<close>

definition storeContent_oncomplete :: "Env \<Rightarrow> Blob \<Rightarrow> ContentSyncService \<Rightarrow> ContentSyncService" where
  "storeContent_oncomplete env b s =
     (let s1 = s\<lparr>cacheSizeBytes := cacheSizeBytes s + int (blobSize b)\<rparr>
      in if cacheSizeBytes s1 > MAX_CACHE_SIZE then trimCache env s1 else s1)"

text \<open>\<open>retry(n)\<close> over the outcomes of the successive attempts.\<close>

fun retry :: "nat \<Rightarrow> 'a response list \<Rightarrow> 'a response" where
  "retry n [] = Failed"
| "retry n (Response b # rest) = Response b"
| "retry 0 (Failed # rest) = Failed"
| "retry (Suc n) (Failed # rest) = retry n rest"

text \<open>\<open>downloadContent\<close>: \<open>Inl\<close> is the error the observable signals.\<close>

definition downloadContent ::
  "Env \<Rightarrow> string \<Rightarrow> ContentSyncService \<Rightarrow> (string + string) \<times> ContentSyncService"
where
  "downloadContent env u s =
     (if u = [] then (Inl ''Invalid URL provided'', s)
      else case retry 2 (httpGet env) of
        Failed \<Rightarrow> (Inl ''Http failure response'', s)
      | Response b \<Rightarrow>
          (case createObjectURL env of
             None \<Rightarrow> (Inl ''createObjectURL failed'', s)
           | Some h \<Rightarrow>
               (let lu = ''blob:'' @ h;
                    (stored, s1) = storeContent env u lu b s;
                    s2 = s1\<lparr>blobCache := (blobCache s1)(u \<mapsto> lu)\<rparr>
                in (Inr lu, if stored then storeContent_oncomplete env b s2 else s2))))"

text \<open>\<open>getLocalContentUrl\<close>: what the returned observable emits to its subscriber, and the
  service once the callbacks of this operation have run. The parameter is a string, so the
  first test (\<open>!originalUrl || typeof originalUrl !== 'string'\<close>) holds for the empty string
  alone, and \<open>originalUrl || ''\<close> is then the empty string. \<open>this.db\<close> and the tracking map are
  read inside the \<open>then\<close> callback, that is, of the service as the initialisation left it.\<close>

definition getLocalContentUrl ::
  "Env \<Rightarrow> string \<Rightarrow> ContentSyncService \<Rightarrow> string notification list \<times> ContentSyncService"
where
  "getLocalContentUrl env originalUrl s0 =
     (if originalUrl = [] then ([Next originalUrl, Complete], s0)
      else case ensureInitialized env s0 of
        Rejects \<Rightarrow> ([Next originalUrl, Complete], s0)
      | Resolves initialized \<Rightarrow>
          (let s = initDatabase env s0 in
           case db s of
             None \<Rightarrow> ([Next originalUrl, Complete], s)
           | Some d \<Rightarrow>
               if \<not> initialized then ([Next originalUrl, Complete], s)
               else (case blobCache s originalUrl of
                  Some lu \<Rightarrow> ([Next lu, Complete], s)
                | None \<Rightarrow>
                    if transactionThrows env then ([Next originalUrl, Complete], s)
                    else if requestFails env then ([Next originalUrl, Complete], s)
                    else
                      (case storeGet url originalUrl (contentStore d) of
                         Some cachedContent \<Rightarrow>
                           (case blob cachedContent of
                              Some b \<Rightarrow>
                                (case createObjectURL env of
                                   None \<Rightarrow> ([Next originalUrl, Complete], s)
                                 | Some h \<Rightarrow>
                                     (let newLocalUrl = ''blob:'' @ h;
                                          s1 = updateCachedUrl env originalUrl newLocalUrl s
                                      in ([Next newLocalUrl, Complete],
                                          s1\<lparr>blobCache := (blobCache s1)(originalUrl \<mapsto> newLocalUrl)\<rparr>)))
                            | None \<Rightarrow>
                                (case downloadContent env originalUrl s of
                                   (Inr lu, s1) \<Rightarrow> ([Next lu, Complete], s1)
                                 | (Inl e, s1) \<Rightarrow> ([Next originalUrl, Complete], s1)))
                       | None \<Rightarrow>
                           (case downloadContent env originalUrl s of
                              (Inr lu, s1) \<Rightarrow> ([Next lu, Complete], s1)
                            | (Inl e, s1) \<Rightarrow> ([Next originalUrl, Complete], s1))))))"

text \<open>\<open>cachePlaylist\<close>: the service after the \<open>put\<close>, and the URLs that \<open>oncomplete\<close> hands to
  \<open>preloadContent\<close> (which works on the content store alone).\<close>

definition preloadUrls :: "PlaylistItem list \<Rightarrow> string list" where
  "preloadUrls its =
     concat (map (\<lambda>item. (if content_url item \<noteq> [] then [content_url item] else [])
                        @ (if truthy (content_thumbnail item) then [the (content_thumbnail item)] else []))
                 its)"

definition cachePlaylist :: "Env \<Rightarrow> Playlist \<Rightarrow> ContentSyncService \<Rightarrow> ContentSyncService \<times> string list" where
  "cachePlaylist env playlist s =
     (case db s of
        None \<Rightarrow> (s, [])
      | Some d \<Rightarrow>
          (case ensureInitialized env s of
             Rejects \<Rightarrow> (s, [])
           | Resolves initialized \<Rightarrow>
               if \<not> initialized then (s, [])
               else if transactionThrows env \<or> writeFails env then (s, [])
               else (s\<lparr>db := Some (d\<lparr>playlistStore :=
                        storePut id' (Playlist.extend playlist \<lparr>timestamp' = dateNow env\<rparr>)
                          (playlistStore d)\<rparr>)\<rparr>,
                     preloadUrls (items playlist))))"

text \<open>\<open>getCachedPlaylist\<close>: the one value the observable emits; \<open>this.db\<close> is read inside
  the \<open>then\<close> callback.\<close>

definition getCachedPlaylist :: "Env \<Rightarrow> string \<Rightarrow> ContentSyncService \<Rightarrow> CachedPlaylist option" where
  "getCachedPlaylist env k s =
     (if k = [] then None
      else case ensureInitialized env s of
        Rejects \<Rightarrow> None
      | Resolves initialized \<Rightarrow>
          (case db (initDatabase env s) of
             None \<Rightarrow> None
           | Some d \<Rightarrow>
               if \<not> initialized then None
               else if transactionThrows env then None
               else if requestFails env then None
               else storeGet id' k (playlistStore d)))"

text \<open>\<open>getFallbackPlaylist\<close>: the one value the observable emits; it signals no error.\<close>

definition getFallbackPlaylist :: "Env \<Rightarrow> ContentSyncService \<Rightarrow> Playlist option" where
  "getFallbackPlaylist env s =
     (case fallbackDocument env of
        Response p \<Rightarrow> Some p
      | Failed \<Rightarrow>
          (case db s of
             None \<Rightarrow> None
           | Some d \<Rightarrow>
               (case ensureInitialized env s of
                  Rejects \<Rightarrow> None
                | Resolves initialized \<Rightarrow>
                    if \<not> initialized then None
                    else if transactionThrows env then None
                    else if requestFails env then None
                    else (case newestFirst d of
                            [] \<Rightarrow> None
                          | c # rest \<Rightarrow> Some (Playlist.truncate c)))))"

section \<open>PlaybackService\<close>

text \<open>\<open>PlayerState\<close> without \<open>lastUpdated\<close>.\<close>

record PlayerState =
  isPlaying :: bool
  isOnline :: bool
  currentPlaylistId' :: "string option"
  currentPlaylistName :: string
  currentItemIndex :: nat
  totalItems :: nat

text \<open>The subjects are held by their current value. \<open>currentTransitionTimeout\<close> is the
  pending transition timer with its delay in milliseconds; \<open>itemTimeouts\<close> are the pending
  \<open>setTimeout(..., 0)\<close> callbacks of \<open>playCurrentItem\<close>, each with the item it will emit;
  \<open>preloads\<close> lists the URLs handed to \<open>preloadContent\<close>.\<close>

record PlaybackService =
  currentItem :: "PlaylistItem option"
  nextItem :: "PlaylistItem option"
  isTransitioning :: bool
  playbackError :: "string option"
  playerState :: PlayerState
  currentPlaylist :: "Playlist option"
  currentIndex :: nat
  currentTransitionTimeout :: "real option"
  itemTimeouts :: "PlaylistItem option list"
  preloads :: "string list"

definition updatePlayerState :: "(PlayerState \<Rightarrow> PlayerState) \<Rightarrow> PlaybackService \<Rightarrow> PlaybackService" where
  "updatePlayerState changes s = s\<lparr>playerState := changes (playerState s)\<rparr>"

definition preloadContent :: "string \<Rightarrow> PlaybackService \<Rightarrow> PlaybackService" where
  "preloadContent u s = s\<lparr>preloads := preloads s @ [u]\<rparr>"

definition preloadAllContent :: "Playlist \<Rightarrow> PlaybackService \<Rightarrow> PlaybackService" where
  "preloadAllContent playlist s =
     (if items playlist = [] then s
      else fold (\<lambda>item s'.
             (let s1 = (if content_url item \<noteq> [] then preloadContent (content_url item) s' else s')
              in if truthy (content_thumbnail item)
                 then preloadContent (the (content_thumbnail item)) s1 else s1))
           (items playlist) s)"

definition preloadNextItem :: "PlaybackService \<Rightarrow> PlaybackService" where
  "preloadNextItem s =
     (case currentPlaylist s of
        None \<Rightarrow> s
      | Some p \<Rightarrow>
          if items p = [] then s
          else
            (let nextIndex = (currentIndex s + 1) mod length (items p);
                 next = items p ! nextIndex;
                 s1 = preloadContent (content_url next) (s\<lparr>nextItem := Some next\<rparr>)
             in if truthy (content_thumbnail next)
                then preloadContent (the (content_thumbnail next)) s1 else s1))"

text \<open>\<open>playCurrentItem\<close>. An index beyond the list reads \<open>undefined\<close>, which is emitted like
  \<open>null\<close>.\<close>

definition playCurrentItem :: "PlaybackService \<Rightarrow> PlaybackService" where
  "playCurrentItem s =
     (case currentPlaylist s of
        None \<Rightarrow> s
      | Some p \<Rightarrow>
          if items p = [] then s
          else
            (let item = (if currentIndex s < length (items p)
                         then Some (items p ! currentIndex s) else None);
                 s1 = preloadNextItem s;
                 s2 = s1\<lparr>isTransitioning := False, currentItem := None,
                         itemTimeouts := itemTimeouts s1 @ [item]\<rparr>
             in updatePlayerState (\<lambda>st. st\<lparr>isPlaying := True, currentItemIndex := currentIndex s2\<rparr>) s2))"

text \<open>The callbacks of \<open>setTimeout(..., 0)\<close> run in the order they were queued.\<close>

definition runItemTimeouts :: "PlaybackService \<Rightarrow> PlaybackService" where
  "runItemTimeouts s =
     (if itemTimeouts s = [] then s
      else s\<lparr>currentItem := last (itemTimeouts s), itemTimeouts := []\<rparr>)"

definition clearTransition :: "PlaybackService \<Rightarrow> PlaybackService" where
  "clearTransition s = s\<lparr>currentTransitionTimeout := None, isTransitioning := False\<rparr>"

text \<open>\<open>transitionDuration * 1000 || 500\<close>: a product of zero is falsy.\<close>

definition getTransitionDuration :: "PlaybackService \<Rightarrow> real" where
  "getTransitionDuration s =
     (case currentItem s of
        None \<Rightarrow> 0
      | Some item \<Rightarrow>
          if transition (item_settings item) \<noteq> NoTransition
          then (if transitionDuration (item_settings item) * 1000 = 0 then 500
                else transitionDuration (item_settings item) * 1000)
          else 0)"

text \<open>\<open>skipToNext\<close> up to \<open>setTimeout\<close>.\<close>

definition skipToNext :: "PlaybackService \<Rightarrow> PlaybackService" where
  "skipToNext s =
     (case currentPlaylist s of
        None \<Rightarrow> s
      | Some p \<Rightarrow>
          if items p = [] then s
          else
            (let s1 = (clearTransition s)\<lparr>isTransitioning := True\<rparr>
             in s1\<lparr>currentTransitionTimeout := Some (getTransitionDuration s1)\<rparr>))"

text \<open>The callback of the transition timer. Without a playlist it throws, and on an empty
  item list \<open>% 0\<close> makes the index \<open>NaN\<close>: both are \<open>None\<close>.\<close>

definition transitionTimeout :: "PlaybackService \<Rightarrow> PlaybackService option" where
  "transitionTimeout s =
     (case currentPlaylist s of
        None \<Rightarrow> None
      | Some p \<Rightarrow>
          if items p = [] then None
          else
            (let s1 = s\<lparr>currentIndex := (currentIndex s + 1) mod length (items p)\<rparr>;
                 s2 = s1\<lparr>isTransitioning := False\<rparr>;
                 s3 = playCurrentItem s2
             in Some (s3\<lparr>currentTransitionTimeout := None\<rparr>)))"

text \<open>The transition timer running out: its callback runs if a timer is pending, and nothing
  happens otherwise.\<close>

definition fireTransitionTimer :: "PlaybackService \<Rightarrow> PlaybackService option" where
  "fireTransitionTimer s =
     (case currentTransitionTimeout s of
        None \<Rightarrow> Some s
      | Some delay \<Rightarrow> transitionTimeout s)"

definition restartPlayback :: "PlaybackService \<Rightarrow> PlaybackService" where
  "restartPlayback s = playCurrentItem ((clearTransition s)\<lparr>currentIndex := 0\<rparr>)"

text \<open>\<open>loadFallbackContent\<close>, with the value \<open>getFallbackPlaylist\<close> emits.\<close>

definition loadFallbackContent :: "Env \<Rightarrow> ContentSyncService \<Rightarrow> PlaybackService \<Rightarrow> PlaybackService" where
  "loadFallbackContent env css s =
     (case getFallbackPlaylist env css of
        Some fallbackPlaylist \<Rightarrow>
          (let s1 = s\<lparr>currentPlaylist := Some fallbackPlaylist, currentIndex := 0,
                       playbackError := None\<rparr>;
               s2 = updatePlayerState
                      (\<lambda>st. st\<lparr>isPlaying := True, currentPlaylistId' := Some (id' fallbackPlaylist),
                                currentPlaylistName := name fallbackPlaylist @ '' (Fallback)'',
                                currentItemIndex := 0,
                                totalItems := length (items fallbackPlaylist)\<rparr>) s1
           in playCurrentItem s2)
      | None \<Rightarrow>
          s\<lparr>playbackError :=
              Some ''No content available. Please check your connection or device configuration.''\<rparr>)"

definition processPlaylist ::
  "Env \<Rightarrow> ContentSyncService \<Rightarrow> Playlist \<Rightarrow> PlaybackService \<Rightarrow> PlaybackService"
where
  "processPlaylist env css playlist s =
     (if length (items playlist) > 0
      then
        (let s1 = s\<lparr>currentPlaylist := Some playlist, currentIndex := 0, playbackError := None\<rparr>;
             s2 = preloadAllContent playlist s1;
             s3 = updatePlayerState
                    (\<lambda>st. st\<lparr>isPlaying := True, currentPlaylistId' := Some (id' playlist),
                              currentPlaylistName := name playlist, currentItemIndex := 0,
                              totalItems := length (items playlist)\<rparr>) s2
         in playCurrentItem s3)
      else loadFallbackContent env css
             (s\<lparr>playbackError := Some ''Playlist is empty or could not be loaded''\<rparr>))"

section \<open>Initial services and sample data\<close>

text \<open>The field initialisers of \<open>PlaybackService\<close>.\<close>

definition initialPlaybackService :: PlaybackService where
  "initialPlaybackService =
     \<lparr>currentItem = None, nextItem = None, isTransitioning = False, playbackError = None,
      playerState = \<lparr>isPlaying = False, isOnline = True, currentPlaylistId' = None,
                     currentPlaylistName = [], currentItemIndex = 0, totalItems = 0\<rparr>,
      currentPlaylist = None, currentIndex = 0, currentTransitionTimeout = None,
      itemTimeouts = [], preloads = []\<rparr>"

text \<open>\<open>ContentSyncService\<close> once \<open>initDatabase\<close> has opened a database with the given
  stores.\<close>

definition openedContentSyncService :: "CachedContent list \<Rightarrow> CachedPlaylist list \<Rightarrow> ContentSyncService" where
  "openedContentSyncService cs ps =
     \<lparr>db = Some \<lparr>contentStore = cs, playlistStore = ps\<rparr>, cacheSizeBytes = (\<Sum>c\<leftarrow>cs. int (size' c)),
      isInitialized = True, blobCache = Map.empty, revoked = []\<rparr>"

text \<open>Surroundings in which nothing fails except the request for the bundled fallback
  document, which the deployment does not ship.\<close>

definition quietEnv :: Env where
  "quietEnv =
     \<lparr>initPromise = Resolves True, transactionThrows = False, requestFails = False,
      writeFails = False, createObjectURL = Some ''0'', httpGet = [Response \<lparr>blobSize = 1, blobType = ''image/png''\<rparr>],
      fallbackDocument = Failed, dateNow = 1000,
      openedDatabase = \<lparr>contentStore = [], playlistStore = []\<rparr>,
      trimTransactionThrows = False, cursorFails = False, deleteThrows = False\<rparr>"

definition sampleItem :: "string \<Rightarrow> transition \<Rightarrow> real \<Rightarrow> PlaylistItem" where
  "sampleItem k t d =
     \<lparr>item_id = k, item_type = Image, item_name = k, item_duration = 10,
      content_url = ''https://cdn.example/'' @ k, content_thumbnail = None,
      item_settings = \<lparr>transition = t, transitionDuration = d, scaling = Fit,
                        muted = None, loop = None\<rparr>\<rparr>"

definition samplePlaylist :: "string \<Rightarrow> PlaylistItem list \<Rightarrow> Playlist" where
  "samplePlaylist k its =
     \<lparr>id' = k, name = ''Lobby'', description = None, duration = 0, items = its,
      lastModified = ''2024-01-01'', createdBy = ''admin'', status = Active, tags = None,
      settings = \<lparr>autoPlay = True, playlist_loop = False, defaultMuted = True,
                  transition_type = Fade, transition_duration = 1 / 2, defaultDuration = 10,
                  scheduling_enabled = False, scheduling_startDate = None,
                  scheduling_endDate = None, scheduling_priority = 1\<rparr>\<rparr>"

text \<open>What the playlist operations read of the service: the playlist store and the
  initialised flag.\<close>

definition playlistView :: "ContentSyncService \<Rightarrow> CachedPlaylist list option \<times> bool" where
  "playlistView s = (map_option playlistStore (db s), isInitialized s)"

text \<open>\<open>contentItems.reduce((total, item) => total + item.size, 0)\<close>.\<close>

definition totalSize :: "CachedContent list \<Rightarrow> int" where
  "totalSize cs = (\<Sum>c\<leftarrow>cs. int (size' c))"

definition sampleContent :: "string \<Rightarrow> nat \<Rightarrow> nat \<Rightarrow> CachedContent" where
  "sampleContent k t n =
     \<lparr>url = ''https://cdn.example/'' @ k, localUrl = ''blob:'' @ k, size' = n, timestamp = t,
      type' = ''image/png'', blob = Some \<lparr>blobSize = n, blobType = ''image/png''\<rparr>\<rparr>"

section \<open>Time strings\<close>

lemma of_char_digitChar: "d < 10 \<Longrightarrow> (of_char (digitChar d) :: nat) = 48 + d"
  by (simp add: digitChar_def)

lemma digitChar_less: "a < 10 \<Longrightarrow> b < 10 \<Longrightarrow> digitChar a < digitChar b \<longleftrightarrow> a < b"
  by (simp add: less_char_def of_char_digitChar)

lemma digitChar_eq: "a < 10 \<Longrightarrow> b < 10 \<Longrightarrow> digitChar a = digitChar b \<longleftrightarrow> a = b"
proof
  assume "a < 10" "b < 10" "digitChar a = digitChar b"
  then have "(of_char (digitChar a) :: nat) = of_char (digitChar b)" by simp
  with \<open>a < 10\<close> \<open>b < 10\<close> show "a = b" by (simp add: of_char_digitChar)
qed simp

lemma lex_pair_order:
  fixes qa ra qb rb :: nat
  assumes "ra < k" "rb < k"
  shows "(qa < qb \<or> qa = qb \<and> (ra < rb \<or> ra = rb \<and> P))
     \<longleftrightarrow> k * qa + ra < k * qb + rb \<or> (k * qa + ra = k * qb + rb \<and> P)"
proof (cases "qa < qb")
  case True
  then have "Suc qa \<le> qb" by simp
  then have "k * Suc qa \<le> k * qb" by (rule mult_le_mono2)
  with assms have "k * qa + ra < k * qb + rb" by simp
  with True show ?thesis by simp
next
  case False
  show ?thesis
  proof (cases "qa = qb")
    case True
    then show ?thesis by auto
  next
    case neq: False
    with False have "qb < qa" by simp
    then have "Suc qb \<le> qa" by simp
    then have "k * Suc qb \<le> k * qa" by (rule mult_le_mono2)
    with assms have "k * qb + rb < k * qa + ra" by simp
    with False neq show ?thesis by simp
  qed
qed

lemma pad2_le:
  assumes "a < 100" "b < 100"
  shows "pad2 a @ s \<le> pad2 b @ t \<longleftrightarrow> a < b \<or> (a = b \<and> s \<le> t)"
proof -
  have d: "a div 10 < 10" "b div 10 < 10" "a mod 10 < 10" "b mod 10 < 10"
    using assms by auto
  have "pad2 a @ s \<le> pad2 b @ t \<longleftrightarrow>
      a div 10 < b div 10 \<or> a div 10 = b div 10 \<and> (a mod 10 < b mod 10 \<or> a mod 10 = b mod 10 \<and> s \<le> t)"
    by (simp add: pad2_def digitChar_less digitChar_eq d)
  also have "\<dots> \<longleftrightarrow> 10 * (a div 10) + a mod 10 < 10 * (b div 10) + b mod 10
       \<or> (10 * (a div 10) + a mod 10 = 10 * (b div 10) + b mod 10 \<and> s \<le> t)"
    by (rule lex_pair_order) (simp_all add: d)
  also have "\<dots> \<longleftrightarrow> a < b \<or> (a = b \<and> s \<le> t)"
    by simp
  finally show ?thesis .
qed

text \<open>On the fixed format the string order is the order of the minute of the day.\<close>

lemma hhmm_le:
  assumes "h < 100" "h' < 100" "m < 60" "m' < 60"
  shows "hhmm h m \<le> hhmm h' m' \<longleftrightarrow> 60 * h + m \<le> 60 * h' + m'"
proof -
  have "pad2 m @ [] \<le> pad2 m' @ [] \<longleftrightarrow> m < m' \<or> (m = m' \<and> ([]::string) \<le> [])"
    using assms by (intro pad2_le) simp_all
  then have mm: "pad2 m \<le> pad2 m' \<longleftrightarrow> m < m' \<or> m = m' \<and> True" by simp
  have "hhmm h m \<le> hhmm h' m' \<longleftrightarrow> h < h' \<or> (h = h' \<and> CHR '':'' # pad2 m \<le> CHR '':'' # pad2 m')"
    unfolding hhmm_def using assms by (simp add: pad2_le)
  also have "\<dots> \<longleftrightarrow> h < h' \<or> h = h' \<and> (m < m' \<or> m = m' \<and> True)"
    using mm by simp
  also have "\<dots> \<longleftrightarrow> 60 * h + m < 60 * h' + m' \<or> (60 * h + m = 60 * h' + m' \<and> True)"
    using assms by (intro lex_pair_order) simp_all
  also have "\<dots> \<longleftrightarrow> 60 * h + m \<le> 60 * h' + m'" by auto
  finally show ?thesis .
qed

text \<open>The seconds of the instant never reach the comparison.\<close>

lemma currentTime_hhmm: "currentTime now = hhmm (hours now) (minutes now)"
  by (simp add: currentTime_def currentTimeExact_def toTimeString_def hhmm_def pad2_def)

lemma currentDay_allDays: "currentDay now \<in> set allDays"
  by (cases "weekday now") (simp_all add: currentDay_def allDays_def)

section \<open>The schedule check\<close>

lemma compareSchedules_le:
  "compareSchedules a b \<le> 0 \<longleftrightarrow> (priority a, start_time a) \<le> (priority b, start_time b)"
  by (auto simp: compareSchedules_def localeCompare_def less_eq_prod_def)

lemma insertSchedule_insort:
  "insertSchedule a bs = insort_key (\<lambda>s. (priority s, start_time s)) a bs"
  by (induction bs) (simp_all add: compareSchedules_le)

lemma sortedSchedules_sort:
  "sortedSchedules xs = sort_key (\<lambda>s. (priority s, start_time s)) xs"
  by (induction xs) (simp_all add: sortedSchedules_def insertSchedule_insort)

text \<open>The two tests of the loop body, taken together, are the matching condition.\<close>

lemma active_ruleMatches:
  "(isActiveDay (currentDay now) r \<and> isActiveTime (currentTime now) r) \<longleftrightarrow> ruleMatches now r"
  using currentDay_allDays [of now]
  by (simp add: isActiveDay_def days_def currentDay_def isActiveTime_def currentTime_hhmm
      ruleMatches_def split: option.split)

lemma ruleMatches_minutes:
  assumes "hours now < 24" "minutes now < 60" "start_time r = hhmm sh sm" "sh < 24" "sm < 60"
    "end_time r = hhmm eh em" "eh < 24" "em < 60"
  shows "ruleMatches now r \<longleftrightarrow>
    ((case days_of_week r of None \<Rightarrow> True | Some ds \<Rightarrow> weekdayName (weekday now) \<in> set ds)
     \<and> 60 * sh + sm \<le> 60 * hours now + minutes now
     \<and> 60 * hours now + minutes now \<le> 60 * eh + em)"
  using assms by (simp add: ruleMatches_def hhmm_le)

text \<open>What the loop leaves in its accumulator: nothing new when no rule of the array is
  active with a priority below the bound it started with, and otherwise an active rule of
  the array whose priority is below that bound and lowest among the active rules.\<close>

lemma scanSchedules_result:
  "(\<not> (\<exists>x\<in>set rules. isActiveDay day x \<and> isActiveTime time x \<and> priority x < hp)
      \<longrightarrow> scanSchedules day time rules (b, hp) = (b, hp))
   \<and> ((\<exists>x\<in>set rules. isActiveDay day x \<and> isActiveTime time x \<and> priority x < hp)
      \<longrightarrow> (\<exists>x\<in>set rules. scanSchedules day time rules (b, hp) = (Some x, priority x)
            \<and> isActiveDay day x \<and> isActiveTime time x \<and> priority x < hp
            \<and> (\<forall>y\<in>set rules. isActiveDay day y \<and> isActiveTime time y
                  \<longrightarrow> priority x \<le> priority y)))"
proof (induction rules arbitrary: b hp)
  case Nil
  show ?case by simp
next
  case (Cons r rest)
  let ?A = "\<lambda>x. isActiveDay day x \<and> isActiveTime time x"
  show ?case
  proof (cases "?A r \<and> priority r < hp")
    case True
    then have step: "scanSchedules day time (r # rest) (b, hp)
        = scanSchedules day time rest (Some r, priority r)" by simp
    have ex: "\<exists>x\<in>set (r # rest). ?A x \<and> priority x < hp" using True by auto
    show ?thesis
    proof (cases "\<exists>x\<in>set rest. ?A x \<and> priority x < priority r")
      case False
      with Cons.IH [of "priority r" "Some r"]
      have "scanSchedules day time rest (Some r, priority r) = (Some r, priority r)" by blast
      with step have eq: "scanSchedules day time (r # rest) (b, hp) = (Some r, priority r)"
        by (simp only:)
      from False have mn: "\<forall>y\<in>set (r # rest). ?A y \<longrightarrow> priority r \<le> priority y"
        by auto
      have "r \<in> set (r # rest)" by simp
      with eq mn True ex show ?thesis by blast
    next
      case True2: True
      with Cons.IH [of "priority r" "Some r"] obtain x where x: "x \<in> set rest"
        "scanSchedules day time rest (Some r, priority r) = (Some x, priority x)"
        "?A x" "priority x < priority r"
        "\<forall>y\<in>set rest. ?A y \<longrightarrow> priority x \<le> priority y"
        by blast
      from x(2) step have eq: "scanSchedules day time (r # rest) (b, hp) = (Some x, priority x)"
        by (simp only:)
      from x(4,5) have mn: "\<forall>y\<in>set (r # rest). ?A y \<longrightarrow> priority x \<le> priority y" by auto
      from x(4) True have lt: "priority x < hp" by simp
      from x(1) have "x \<in> set (r # rest)" by simp
      with eq mn lt x(3) ex show ?thesis by blast
    qed
  next
    case False
    then have step: "scanSchedules day time (r # rest) (b, hp)
        = scanSchedules day time rest (b, hp)" by auto
    show ?thesis
    proof (cases "\<exists>x\<in>set rest. ?A x \<and> priority x < hp")
      case nx: False
      with Cons.IH [of hp b]
      have "scanSchedules day time rest (b, hp) = (b, hp)" by blast
      with step have eq: "scanSchedules day time (r # rest) (b, hp) = (b, hp)" by (simp only:)
      from nx False
      have "\<not> (\<exists>x\<in>set (r # rest). ?A x \<and> priority x < hp)" by auto
      with eq show ?thesis by blast
    next
      case ex: True
      with Cons.IH [of hp b] obtain x where x: "x \<in> set rest"
        "scanSchedules day time rest (b, hp) = (Some x, priority x)"
        "?A x" "priority x < hp"
        "\<forall>y\<in>set rest. ?A y \<longrightarrow> priority x \<le> priority y"
        by blast
      from x(2) step have eq: "scanSchedules day time (r # rest) (b, hp) = (Some x, priority x)"
        by (simp only:)
      from False x(4) have "?A r \<longrightarrow> priority x \<le> priority r" by auto
      with x(5) have mn: "\<forall>y\<in>set (r # rest). ?A y \<longrightarrow> priority x \<le> priority y" by auto
      from x(1) have "x \<in> set (r # rest)" by simp
      with eq mn x(3,4) show ?thesis by blast
    qed
  qed
qed

lemma scanSchedules_taken:
  "(fst (scanSchedules (currentDay now) (currentTime now) rules (None, MAX_SAFE_INTEGER)) \<noteq> None)
     \<longleftrightarrow> (\<exists>x\<in>set rules. ruleMatches now x \<and> priority x < MAX_SAFE_INTEGER)"
  "fst (scanSchedules (currentDay now) (currentTime now) rules (None, MAX_SAFE_INTEGER)) = Some r
     \<Longrightarrow> r \<in> set rules \<and> ruleMatches now r \<and> priority r < MAX_SAFE_INTEGER
         \<and> (\<forall>y\<in>set rules. ruleMatches now y \<longrightarrow> priority r \<le> priority y)"
proof -
  let ?scan = "scanSchedules (currentDay now) (currentTime now) rules (None, MAX_SAFE_INTEGER)"
  let ?ex = "\<exists>x\<in>set rules. isActiveDay (currentDay now) x \<and> isActiveTime (currentTime now) x
      \<and> priority x < MAX_SAFE_INTEGER"
  note res = scanSchedules_result [of rules "currentDay now" "currentTime now" MAX_SAFE_INTEGER None]
  have exm: "?ex \<longleftrightarrow> (\<exists>x\<in>set rules. ruleMatches now x \<and> priority x < MAX_SAFE_INTEGER)"
    using active_ruleMatches [of now] by blast
  show "(fst ?scan \<noteq> None)
     \<longleftrightarrow> (\<exists>x\<in>set rules. ruleMatches now x \<and> priority x < MAX_SAFE_INTEGER)"
  proof (cases ?ex)
    case True
    with res obtain x where "?scan = (Some x, priority x)" by blast
    then have "fst ?scan \<noteq> None" by simp
    with True exm show ?thesis by blast
  next
    case False
    with res have "?scan = (None, MAX_SAFE_INTEGER)" by blast
    then have "fst ?scan = None" by simp
    with False exm show ?thesis by blast
  qed
  show "r \<in> set rules \<and> ruleMatches now r \<and> priority r < MAX_SAFE_INTEGER
         \<and> (\<forall>y\<in>set rules. ruleMatches now y \<longrightarrow> priority r \<le> priority y)"
    if r: "fst ?scan = Some r"
  proof (cases ?ex)
    case False
    with res have "?scan = (None, MAX_SAFE_INTEGER)" by blast
    with r show ?thesis by simp
  next
    case True
    with res obtain x where x: "x \<in> set rules" "?scan = (Some x, priority x)"
      "isActiveDay (currentDay now) x \<and> isActiveTime (currentTime now) x"
      "priority x < MAX_SAFE_INTEGER"
      "\<forall>y\<in>set rules. isActiveDay (currentDay now) y \<and> isActiveTime (currentTime now) y
          \<longrightarrow> priority x \<le> priority y"
      by blast
    from x(2) r have "x = r" by simp
    with x(1,3,4,5) show ?thesis using active_ruleMatches [of now] by blast
  qed
qed

text \<open>The id on which \<open>checkSchedule\<close> settles when it reaches its loop.\<close>

lemma checkSchedule_settles:
  assumes "truthy (deviceId st)" and "schedule screen = Some sched" and "upcoming sched \<noteq> []"
  shows "currentPlaylistId (snd (checkSchedule now (Response (Some screen)) st))
    = (case fst (scanSchedules (currentDay now) (currentTime now) (upcoming sched)
                   (None, MAX_SAFE_INTEGER)) of
         Some h \<Rightarrow> Some (playlist_id h)
       | None \<Rightarrow> if truthy (current_playlist screen) then current_playlist screen
                 else currentPlaylistId st)"
  using assms
  by (auto simp: checkSchedule_def updateCurrentPlaylist_def Let_def split: option.splits)

lemma activeSchedule_find:
  assumes "schedule screen = Some sched"
  shows "activeSchedule now screen
    = find (\<lambda>s. ruleMatches now s) (sort_key (\<lambda>s. (priority s, start_time s)) (upcoming sched))"
proof -
  have eq: "(\<lambda>s. currentDay now \<in> set (days s)
              \<and> currentTime now \<ge> start_time s \<and> currentTime now \<le> end_time s)
      = (\<lambda>s. ruleMatches now s)"
    using active_ruleMatches [of now] by (simp add: isActiveDay_def isActiveTime_def fun_eq_iff)
  show ?thesis
  proof (cases "upcoming sched = []")
    case True
    with assms show ?thesis by (simp add: activeSchedule_def)
  next
    case False
    with assms show ?thesis
      by (simp add: activeSchedule_def sortedSchedules_sort eq)
  qed
qed

text \<open>
  C1. The schedule check treats a rule as matching exactly when the weekday of the instant
  is among the rule's days (every weekday when the rule has no \<open>days_of_week\<close>) and the
  \<open>"HH:MM"\<close> of the instant lies between the rule's start and end time in string order, both
  ends included; the seconds of the instant play no part. For a rule whose times are written
  \<open>"HH:MM"\<close> this is: the minute of the day lies between the rule's start and end minute,
  both ends included. Both places that resolve the schedule use this condition:

  \<^item> the loop of \<open>checkSchedule\<close> passes over a rule that does not match, and replaces its
    candidate by a matching rule when that rule's priority is below the candidate's. The
    loop starts without a candidate at the bound \<open>Number.MAX_SAFE_INTEGER\<close>, so it ends with
    a rule exactly when some rule of the array matches with a priority below that bound,
    and the rule it ends with matches; \<open>checkSchedule\<close> then settles on that rule's
    playlist, and on the screen's default playlist (or the remembered id, if there is no
    default) when the loop ends without a rule;
  \<^item> the search of \<open>startPlayback\<close> finds a rule exactly when some rule of the array matches,
    and the rule it finds matches.
\<close>

theorem schedule_rule_active_iff:
  "((isActiveDay (currentDay now) r \<and> isActiveTime (currentTime now) r) \<longleftrightarrow>
      ((case days_of_week r of None \<Rightarrow> True | Some ds \<Rightarrow> weekdayName (weekday now) \<in> set ds)
       \<and> start_time r \<le> hhmm (hours now) (minutes now)
       \<and> hhmm (hours now) (minutes now) \<le> end_time r))
   \<and> (hours now < 24 \<and> minutes now < 60
        \<and> start_time r = hhmm sh sm \<and> sh < 24 \<and> sm < 60
        \<and> end_time r = hhmm eh em \<and> eh < 24 \<and> em < 60
       \<longrightarrow> ((isActiveDay (currentDay now) r \<and> isActiveTime (currentTime now) r) \<longleftrightarrow>
             ((case days_of_week r of None \<Rightarrow> True | Some ds \<Rightarrow> weekdayName (weekday now) \<in> set ds)
              \<and> 60 * sh + sm \<le> 60 * hours now + minutes now
              \<and> 60 * hours now + minutes now \<le> 60 * eh + em)))
   \<and> scanSchedules (currentDay now) (currentTime now) (r # rest) (best, bound)
       = scanSchedules (currentDay now) (currentTime now) rest
           (if ruleMatches now r \<and> priority r < bound then (Some r, priority r)
            else (best, bound))
   \<and> ((fst (scanSchedules (currentDay now) (currentTime now) rules (None, MAX_SAFE_INTEGER))
          \<noteq> None)
        \<longleftrightarrow> (\<exists>x\<in>set rules. ruleMatches now x \<and> priority x < MAX_SAFE_INTEGER))
   \<and> (fst (scanSchedules (currentDay now) (currentTime now) rules (None, MAX_SAFE_INTEGER))
          = Some taken
        \<longrightarrow> taken \<in> set rules \<and> ruleMatches now taken)
   \<and> (truthy (deviceId st) \<and> schedule screen = Some sched \<and> upcoming sched \<noteq> []
        \<longrightarrow> ((\<exists>x\<in>set (upcoming sched). ruleMatches now x \<and> priority x < MAX_SAFE_INTEGER)
              \<longrightarrow> (\<exists>x\<in>set (upcoming sched). ruleMatches now x
                    \<and> currentPlaylistId (snd (checkSchedule now (Response (Some screen)) st))
                        = Some (playlist_id x)))
           \<and> (\<not> (\<exists>x\<in>set (upcoming sched). ruleMatches now x \<and> priority x < MAX_SAFE_INTEGER)
              \<longrightarrow> currentPlaylistId (snd (checkSchedule now (Response (Some screen)) st))
                    = (if truthy (current_playlist screen) then current_playlist screen
                       else currentPlaylistId st)))
   \<and> (schedule screen = Some sched
        \<longrightarrow> ((activeSchedule now screen \<noteq> None)
               \<longleftrightarrow> (\<exists>x\<in>set (upcoming sched). ruleMatches now x))
           \<and> (activeSchedule now screen = Some found
               \<longrightarrow> found \<in> set (upcoming sched) \<and> ruleMatches now found))"
proof -
  have str: "(isActiveDay (currentDay now) r \<and> isActiveTime (currentTime now) r) \<longleftrightarrow>
      ((case days_of_week r of None \<Rightarrow> True | Some ds \<Rightarrow> weekdayName (weekday now) \<in> set ds)
       \<and> start_time r \<le> hhmm (hours now) (minutes now)
       \<and> hhmm (hours now) (minutes now) \<le> end_time r)"
    using active_ruleMatches [of now r] by (simp add: ruleMatches_def)
  have num: "hours now < 24 \<and> minutes now < 60
        \<and> start_time r = hhmm sh sm \<and> sh < 24 \<and> sm < 60
        \<and> end_time r = hhmm eh em \<and> eh < 24 \<and> em < 60
       \<longrightarrow> ((isActiveDay (currentDay now) r \<and> isActiveTime (currentTime now) r) \<longleftrightarrow>
             ((case days_of_week r of None \<Rightarrow> True | Some ds \<Rightarrow> weekdayName (weekday now) \<in> set ds)
              \<and> 60 * sh + sm \<le> 60 * hours now + minutes now
              \<and> 60 * hours now + minutes now \<le> 60 * eh + em))"
    using ruleMatches_minutes [of now r sh sm eh em] active_ruleMatches [of now r] by blast
  have step: "scanSchedules (currentDay now) (currentTime now) (r # rest) (best, bound)
       = scanSchedules (currentDay now) (currentTime now) rest
           (if ruleMatches now r \<and> priority r < bound then (Some r, priority r)
            else (best, bound))"
    using active_ruleMatches [of now r] by auto
  have some: "(fst (scanSchedules (currentDay now) (currentTime now) rules (None, MAX_SAFE_INTEGER))
          \<noteq> None)
        \<longleftrightarrow> (\<exists>x\<in>set rules. ruleMatches now x \<and> priority x < MAX_SAFE_INTEGER)"
    by (rule scanSchedules_taken(1))
  have taken: "fst (scanSchedules (currentDay now) (currentTime now) rules (None, MAX_SAFE_INTEGER))
          = Some taken
        \<longrightarrow> taken \<in> set rules \<and> ruleMatches now taken"
    using scanSchedules_taken(2) [of now rules taken] by blast
  have chk: "truthy (deviceId st) \<and> schedule screen = Some sched \<and> upcoming sched \<noteq> []
        \<longrightarrow> ((\<exists>x\<in>set (upcoming sched). ruleMatches now x \<and> priority x < MAX_SAFE_INTEGER)
              \<longrightarrow> (\<exists>x\<in>set (upcoming sched). ruleMatches now x
                    \<and> currentPlaylistId (snd (checkSchedule now (Response (Some screen)) st))
                        = Some (playlist_id x)))
           \<and> (\<not> (\<exists>x\<in>set (upcoming sched). ruleMatches now x \<and> priority x < MAX_SAFE_INTEGER)
              \<longrightarrow> currentPlaylistId (snd (checkSchedule now (Response (Some screen)) st))
                    = (if truthy (current_playlist screen) then current_playlist screen
                       else currentPlaylistId st))"
  proof (intro impI, elim conjE)
    assume a: "truthy (deviceId st)" "schedule screen = Some sched" "upcoming sched \<noteq> []"
    let ?scan = "fst (scanSchedules (currentDay now) (currentTime now) (upcoming sched)
                   (None, MAX_SAFE_INTEGER))"
    let ?ex = "\<exists>x\<in>set (upcoming sched). ruleMatches now x \<and> priority x < MAX_SAFE_INTEGER"
    note settles = checkSchedule_settles [OF a, of now]
    have one: "\<exists>x\<in>set (upcoming sched). ruleMatches now x
          \<and> currentPlaylistId (snd (checkSchedule now (Response (Some screen)) st))
              = Some (playlist_id x)" if ?ex
    proof -
      from that scanSchedules_taken(1) [of now "upcoming sched"] obtain h where h: "?scan = Some h"
        by blast
      from scanSchedules_taken(2) [OF h] have "h \<in> set (upcoming sched)" "ruleMatches now h"
        by blast+
      moreover from settles h
      have "currentPlaylistId (snd (checkSchedule now (Response (Some screen)) st))
          = Some (playlist_id h)" by simp
      ultimately show ?thesis by blast
    qed
    have two: "currentPlaylistId (snd (checkSchedule now (Response (Some screen)) st))
          = (if truthy (current_playlist screen) then current_playlist screen
             else currentPlaylistId st)" if "\<not> ?ex"
    proof -
      from that scanSchedules_taken(1) [of now "upcoming sched"] have "?scan = None" by blast
      with settles show ?thesis by simp
    qed
    from one two show "(?ex \<longrightarrow> (\<exists>x\<in>set (upcoming sched). ruleMatches now x
          \<and> currentPlaylistId (snd (checkSchedule now (Response (Some screen)) st))
              = Some (playlist_id x)))
        \<and> (\<not> ?ex \<longrightarrow> currentPlaylistId (snd (checkSchedule now (Response (Some screen)) st))
          = (if truthy (current_playlist screen) then current_playlist screen
             else currentPlaylistId st))" by blast
  qed
  have act: "schedule screen = Some sched
        \<longrightarrow> ((activeSchedule now screen \<noteq> None)
               \<longleftrightarrow> (\<exists>x\<in>set (upcoming sched). ruleMatches now x))
           \<and> (activeSchedule now screen = Some found
               \<longrightarrow> found \<in> set (upcoming sched) \<and> ruleMatches now found)"
  proof
    assume s: "schedule screen = Some sched"
    note f = activeSchedule_find [OF s, of now]
    have "(activeSchedule now screen \<noteq> None) \<longleftrightarrow> (\<exists>x\<in>set (upcoming sched). ruleMatches now x)"
      unfolding f by (auto simp: find_None_iff)
    moreover have "found \<in> set (upcoming sched) \<and> ruleMatches now found"
      if "activeSchedule now screen = Some found"
    proof -
      from that f have "find (\<lambda>s. ruleMatches now s)
          (sort_key (\<lambda>s. (priority s, start_time s)) (upcoming sched)) = Some found" by simp
      then obtain i where "i < length (sort_key (\<lambda>s. (priority s, start_time s)) (upcoming sched))"
        "ruleMatches now (sort_key (\<lambda>s. (priority s, start_time s)) (upcoming sched) ! i)"
        "found = sort_key (\<lambda>s. (priority s, start_time s)) (upcoming sched) ! i"
        unfolding find_Some_iff by blast
      then show ?thesis
        using nth_mem [of i "sort_key (\<lambda>s. (priority s, start_time s)) (upcoming sched)"] by simp
    qed
    ultimately show "((activeSchedule now screen \<noteq> None)
               \<longleftrightarrow> (\<exists>x\<in>set (upcoming sched). ruleMatches now x))
           \<and> (activeSchedule now screen = Some found
               \<longrightarrow> found \<in> set (upcoming sched) \<and> ruleMatches now found)" by blast
  qed
  show ?thesis
    by (intro conjI; fact)
qed

text \<open>With the one rule \<open>P1\<close> from 09:00 to 17:00 without \<open>days_of_week\<close>, a fresh service
  settles on \<open>P1\<close> on a Monday at 09:00:30 and at 17:00:59, and \<open>startPlayback\<close> finds the
  rule at both instants.\<close>

theorem schedule_rule_active_witness:
  "isActiveDay (currentDay \<lparr>weekday = Monday, hours = 9, minutes = 0, seconds = 30\<rparr>)
     \<lparr>playlist_id = ''P1'', start_time = ''09:00'', end_time = ''17:00'', priority = 1,
      days_of_week = None\<rparr>
   \<and> isActiveTime (currentTime \<lparr>weekday = Monday, hours = 9, minutes = 0, seconds = 30\<rparr>)
     \<lparr>playlist_id = ''P1'', start_time = ''09:00'', end_time = ''17:00'', priority = 1,
      days_of_week = None\<rparr>
   \<and> isActiveTime (currentTime \<lparr>weekday = Monday, hours = 17, minutes = 0, seconds = 59\<rparr>)
     \<lparr>playlist_id = ''P1'', start_time = ''09:00'', end_time = ''17:00'', priority = 1,
      days_of_week = None\<rparr>
   \<and> currentPlaylistId (snd (checkSchedule \<lparr>weekday = Monday, hours = 9, minutes = 0, seconds = 30\<rparr>
      (Response (Some \<lparr>current_playlist = None, schedule = Some \<lparr>upcoming =
         [\<lparr>playlist_id = ''P1'', start_time = ''09:00'', end_time = ''17:00'', priority = 1,
            days_of_week = None\<rparr>]\<rparr>\<rparr>))
      \<lparr>deviceId = Some ''screen-1'', currentPlaylistId = None, serverUpdates = []\<rparr>)) = Some ''P1''
   \<and> currentPlaylistId (snd (checkSchedule \<lparr>weekday = Monday, hours = 17, minutes = 0, seconds = 59\<rparr>
      (Response (Some \<lparr>current_playlist = None, schedule = Some \<lparr>upcoming =
         [\<lparr>playlist_id = ''P1'', start_time = ''09:00'', end_time = ''17:00'', priority = 1,
            days_of_week = None\<rparr>]\<rparr>\<rparr>))
      \<lparr>deviceId = Some ''screen-1'', currentPlaylistId = None, serverUpdates = []\<rparr>)) = Some ''P1''
   \<and> activeSchedule \<lparr>weekday = Monday, hours = 9, minutes = 0, seconds = 30\<rparr>
      \<lparr>current_playlist = None, schedule = Some \<lparr>upcoming =
         [\<lparr>playlist_id = ''P1'', start_time = ''09:00'', end_time = ''17:00'', priority = 1,
            days_of_week = None\<rparr>]\<rparr>\<rparr>
      = Some \<lparr>playlist_id = ''P1'', start_time = ''09:00'', end_time = ''17:00'', priority = 1,
            days_of_week = None\<rparr>
   \<and> activeSchedule \<lparr>weekday = Monday, hours = 17, minutes = 0, seconds = 59\<rparr>
      \<lparr>current_playlist = None, schedule = Some \<lparr>upcoming =
         [\<lparr>playlist_id = ''P1'', start_time = ''09:00'', end_time = ''17:00'', priority = 1,
            days_of_week = None\<rparr>]\<rparr>\<rparr>
      = Some \<lparr>playlist_id = ''P1'', start_time = ''09:00'', end_time = ''17:00'', priority = 1,
            days_of_week = None\<rparr>"
proof -
  let ?r = "\<lparr>playlist_id = ''P1'', start_time = ''09:00'', end_time = ''17:00'', priority = 1,
            days_of_week = None\<rparr>"
  let ?screen = "\<lparr>current_playlist = None, schedule = Some \<lparr>upcoming = [?r]\<rparr>\<rparr>"
  let ?st = "\<lparr>deviceId = Some ''screen-1'', currentPlaylistId = None, serverUpdates = []\<rparr>"
  let ?t1 = "\<lparr>weekday = Monday, hours = 9, minutes = 0, seconds = 30\<rparr>"
  let ?t2 = "\<lparr>weekday = Monday, hours = 17, minutes = 0, seconds = 59\<rparr>"
  let ?sched = "\<lparr>upcoming = [?r]\<rparr>"
  have s: "''09:00'' = hhmm 9 0" and e: "''17:00'' = hhmm 17 0"
    by code_simp+
  have h: "truthy (deviceId ?st)" "schedule ?screen = Some ?sched" "upcoming ?sched \<noteq> []"
    by simp_all
  have m1: "ruleMatches ?t1 ?r"
    unfolding ruleMatches_def by (simp only: s e) (simp add: hhmm_le)
  have m2: "ruleMatches ?t2 ?r"
    unfolding ruleMatches_def by (simp only: s e) (simp add: hhmm_le)
  have ex1: "\<exists>x\<in>set (upcoming ?sched). ruleMatches ?t1 x \<and> priority x < MAX_SAFE_INTEGER"
    using m1 by (simp add: MAX_SAFE_INTEGER_def)
  have ex2: "\<exists>x\<in>set (upcoming ?sched). ruleMatches ?t2 x \<and> priority x < MAX_SAFE_INTEGER"
    using m2 by (simp add: MAX_SAFE_INTEGER_def)
  note t1 = schedule_rule_active_iff [of ?t1 ?r 9 0 17 0 "[]" None MAX_SAFE_INTEGER "[?r]" ?r ?st
      ?screen ?sched "the (activeSchedule ?t1 ?screen)"]
  note t2 = schedule_rule_active_iff [of ?t2 ?r 9 0 17 0 "[]" None MAX_SAFE_INTEGER "[?r]" ?r ?st
      ?screen ?sched "the (activeSchedule ?t2 ?screen)"]
  from t1 h ex1 have "\<exists>x\<in>set (upcoming ?sched). ruleMatches ?t1 x
      \<and> currentPlaylistId (snd (checkSchedule ?t1 (Response (Some ?screen)) ?st))
          = Some (playlist_id x)" by blast
  then have c1: "currentPlaylistId (snd (checkSchedule ?t1 (Response (Some ?screen)) ?st))
      = Some ''P1''" by simp
  from t2 h ex2 have "\<exists>x\<in>set (upcoming ?sched). ruleMatches ?t2 x
      \<and> currentPlaylistId (snd (checkSchedule ?t2 (Response (Some ?screen)) ?st))
          = Some (playlist_id x)" by blast
  then have c2: "currentPlaylistId (snd (checkSchedule ?t2 (Response (Some ?screen)) ?st))
      = Some ''P1''" by simp
  from t1 h(2) ex1 have n1: "activeSchedule ?t1 ?screen \<noteq> None" by blast
  then have "activeSchedule ?t1 ?screen = Some (the (activeSchedule ?t1 ?screen))" by simp
  with t1 h(2) have "the (activeSchedule ?t1 ?screen) \<in> set (upcoming ?sched)" by blast
  with n1 have a1: "activeSchedule ?t1 ?screen = Some ?r" by auto
  from t2 h(2) ex2 have n2: "activeSchedule ?t2 ?screen \<noteq> None" by blast
  then have "activeSchedule ?t2 ?screen = Some (the (activeSchedule ?t2 ?screen))" by simp
  with t2 h(2) have "the (activeSchedule ?t2 ?screen) \<in> set (upcoming ?sched)" by blast
  with n2 have a2: "activeSchedule ?t2 ?screen = Some ?r" by auto
  have b1: "hours ?t1 < 24 \<and> minutes ?t1 < 60 \<and> start_time ?r = hhmm 9 0 \<and> (9::nat) < 24
      \<and> (0::nat) < 60 \<and> end_time ?r = hhmm 17 0 \<and> (17::nat) < 24 \<and> (0::nat) < 60"
    and b2: "hours ?t2 < 24 \<and> minutes ?t2 < 60 \<and> start_time ?r = hhmm 9 0 \<and> (9::nat) < 24
      \<and> (0::nat) < 60 \<and> end_time ?r = hhmm 17 0 \<and> (17::nat) < 24 \<and> (0::nat) < 60"
    by (simp_all add: s e)
  have d1: "(case days_of_week ?r of None \<Rightarrow> True
        | Some ds \<Rightarrow> weekdayName (weekday ?t1) \<in> set ds)
      \<and> 60 * 9 + 0 \<le> 60 * hours ?t1 + minutes ?t1
      \<and> 60 * hours ?t1 + minutes ?t1 \<le> 60 * 17 + 0"
    and d2: "(case days_of_week ?r of None \<Rightarrow> True
        | Some ds \<Rightarrow> weekdayName (weekday ?t2) \<in> set ds)
      \<and> 60 * 9 + 0 \<le> 60 * hours ?t2 + minutes ?t2
      \<and> 60 * hours ?t2 + minutes ?t2 \<le> 60 * 17 + 0"
    by simp_all
  from t1 b1 d1 have p1: "isActiveDay (currentDay ?t1) ?r \<and> isActiveTime (currentTime ?t1) ?r"
    by blast
  from t2 b2 d2 have p2: "isActiveDay (currentDay ?t2) ?r \<and> isActiveTime (currentTime ?t2) ?r"
    by blast
  from p1 p2 c1 c2 a1 a2 show ?thesis by blast
qed

text \<open>
  C2. Among the rules active at an instant the schedule resolution takes one of lowest
  priority, and of several with that priority the one whose start time is earliest. The
  sorted search of \<open>startPlayback\<close> does so; the loop of \<open>checkSchedule\<close> keeps the first
  rule of lowest priority in array order instead. On a Monday at 12:00, with two rules of
  priority 1 active, \<open>P1\<close> from 10:00 listed before \<open>P2\<close> from 09:00, \<open>checkSchedule\<close>
  settles on \<open>P1\<close> and \<open>startPlayback\<close> on \<open>P2\<close>.
\<close>

theorem checkSchedule_tie_divergence:
  "map_option playlist_id
     (fst (scanSchedules
        (currentDay \<lparr>weekday = Monday, hours = 12, minutes = 0, seconds = 0\<rparr>)
        (currentTime \<lparr>weekday = Monday, hours = 12, minutes = 0, seconds = 0\<rparr>)
        [\<lparr>playlist_id = ''P1'', start_time = ''10:00'', end_time = ''18:00'', priority = 1,
           days_of_week = None\<rparr>,
         \<lparr>playlist_id = ''P2'', start_time = ''09:00'', end_time = ''17:00'', priority = 1,
           days_of_week = None\<rparr>]
        (None, MAX_SAFE_INTEGER))) = Some ''P1''
   \<and> currentPlaylistId (snd (checkSchedule
        \<lparr>weekday = Monday, hours = 12, minutes = 0, seconds = 0\<rparr>
        (Response (Some \<lparr>current_playlist = None,
           schedule = Some \<lparr>upcoming =
             [\<lparr>playlist_id = ''P1'', start_time = ''10:00'', end_time = ''18:00'', priority = 1,
                days_of_week = None\<rparr>,
              \<lparr>playlist_id = ''P2'', start_time = ''09:00'', end_time = ''17:00'', priority = 1,
                days_of_week = None\<rparr>]\<rparr>\<rparr>))
        \<lparr>deviceId = Some ''screen-1'', currentPlaylistId = None, serverUpdates = []\<rparr>))
       = Some ''P1''
   \<and> map_option playlist_id
     (activeSchedule \<lparr>weekday = Monday, hours = 12, minutes = 0, seconds = 0\<rparr>
        \<lparr>current_playlist = None,
         schedule = Some \<lparr>upcoming =
           [\<lparr>playlist_id = ''P1'', start_time = ''10:00'', end_time = ''18:00'', priority = 1,
              days_of_week = None\<rparr>,
            \<lparr>playlist_id = ''P2'', start_time = ''09:00'', end_time = ''17:00'', priority = 1,
              days_of_week = None\<rparr>]\<rparr>\<rparr>) = Some ''P2''"
proof -
  have t: "currentTime \<lparr>weekday = Monday, hours = 12, minutes = 0, seconds = 0\<rparr> = ''12:00''"
    by code_simp
  show ?thesis
    by (simp add: t currentDay_def isActiveDay_def isActiveTime_def days_def allDays_def
        MAX_SAFE_INTEGER_def activeSchedule_def sortedSchedules_def compareSchedules_def
        localeCompare_def checkSchedule_def updateCurrentPlaylist_def Let_def)
qed

section \<open>Successive schedule checks\<close>

lemma checkSchedule_again:
  "checkSchedule now fetched (snd (checkSchedule now fetched st))
     = (False, snd (checkSchedule now fetched st))"
  by (auto simp: checkSchedule_def updateCurrentPlaylist_def Let_def
      split: response.splits option.splits)

lemma checkSchedule_true_iff:
  "fst (checkSchedule now fetched st)
     \<longleftrightarrow> currentPlaylistId (snd (checkSchedule now fetched st)) \<noteq> currentPlaylistId st"
  by (auto simp: checkSchedule_def updateCurrentPlaylist_def Let_def
      split: response.splits option.splits)

text \<open>
  C7, as stated: two successive schedule checks at one instant on the same screen data
  give the same result. They do not: the service remembers the playlist id it resolved
  last, and the first check of a fresh service reports a change that the second no longer
  reports.
\<close>

theorem checkSchedule_repeat_counterexample:
  "fst (checkSchedule \<lparr>weekday = Monday, hours = 10, minutes = 0, seconds = 0\<rparr>
          (Response (Some \<lparr>current_playlist = None,
             schedule = Some \<lparr>upcoming =
               [\<lparr>playlist_id = ''P1'', start_time = ''09:00'', end_time = ''17:00'',
                  priority = 1, days_of_week = None\<rparr>]\<rparr>\<rparr>))
          \<lparr>deviceId = Some ''screen-1'', currentPlaylistId = None, serverUpdates = []\<rparr>)
   \<noteq> fst (checkSchedule \<lparr>weekday = Monday, hours = 10, minutes = 0, seconds = 0\<rparr>
          (Response (Some \<lparr>current_playlist = None,
             schedule = Some \<lparr>upcoming =
               [\<lparr>playlist_id = ''P1'', start_time = ''09:00'', end_time = ''17:00'',
                  priority = 1, days_of_week = None\<rparr>]\<rparr>\<rparr>))
          (snd (checkSchedule \<lparr>weekday = Monday, hours = 10, minutes = 0, seconds = 0\<rparr>
             (Response (Some \<lparr>current_playlist = None,
                schedule = Some \<lparr>upcoming =
                  [\<lparr>playlist_id = ''P1'', start_time = ''09:00'', end_time = ''17:00'',
                     priority = 1, days_of_week = None\<rparr>]\<rparr>\<rparr>))
             \<lparr>deviceId = Some ''screen-1'', currentPlaylistId = None, serverUpdates = []\<rparr>)))"
proof -
  have t: "currentTime \<lparr>weekday = Monday, hours = 10, minutes = 0, seconds = 0\<rparr> = ''10:00''"
    by code_simp
  show ?thesis
    by (simp add: t currentDay_def isActiveDay_def isActiveTime_def days_def allDays_def
        MAX_SAFE_INTEGER_def checkSchedule_def updateCurrentPlaylist_def Let_def)
qed

lemma checkSchedule_fixes:
  "fst (checkSchedule now fetched st) \<Longrightarrow> truthy (deviceId st') \<Longrightarrow>
   currentPlaylistId (snd (checkSchedule now fetched st'))
     = currentPlaylistId (snd (checkSchedule now fetched st))"
  by (auto simp: checkSchedule_def updateCurrentPlaylist_def Let_def
      split: response.splits option.splits if_splits)

lemma checkSchedule_idle:
  "\<not> truthy (deviceId st) \<or> fetched = Failed \<or> fetched = Response None
     \<or> (fetched = Response (Some screen)
         \<and> (schedule screen = None \<or> (schedule screen = Some sched \<and> upcoming sched = [])))
   \<Longrightarrow> checkSchedule now fetched st = (False, st)"
  by (auto simp: checkSchedule_def)

lemma checkSchedule_deviceId:
  "deviceId (snd (checkSchedule now fetched st)) = deviceId st"
  by (auto simp: checkSchedule_def updateCurrentPlaylist_def Let_def
      split: response.splits option.splits)

text \<open>
  C7, amended. The schedule check is not stateless: the service remembers the playlist id
  it resolved last, and the check emits true exactly when it changes that remembered id.
  What is a function of the instant and the fetched screen data alone is the id the check
  resolves: with a device id, a schedule and a non-empty rule array, the check ends with
  the playlist of the rule its loop takes, or without such a rule with the screen's default
  playlist, whatever id was remembered before; only when there is neither does it keep the
  remembered id. Without a device id, on a failed or empty answer, without a schedule or
  with an empty rule array it emits false and changes nothing. Hence one check that emits
  true fixes the id that the check reaches from every state with a device id, and the
  second of two successive checks at a fixed instant on fixed screen data always emits
  false and leaves the service as the first check left it.
\<close>

theorem checkSchedule_successive:
  "checkSchedule now fetched (snd (checkSchedule now fetched st))
     = (False, snd (checkSchedule now fetched st))
   \<and> (fst (checkSchedule now fetched st)
        \<longleftrightarrow> currentPlaylistId (snd (checkSchedule now fetched st)) \<noteq> currentPlaylistId st)
   \<and> (fst (checkSchedule now fetched st) \<and> truthy (deviceId st')
        \<longrightarrow> currentPlaylistId (snd (checkSchedule now fetched st'))
              = currentPlaylistId (snd (checkSchedule now fetched st)))
   \<and> (truthy (deviceId st) \<and> schedule screen = Some sched \<and> upcoming sched \<noteq> []
        \<longrightarrow> currentPlaylistId (snd (checkSchedule now (Response (Some screen)) st))
              = (case fst (scanSchedules (currentDay now) (currentTime now) (upcoming sched)
                             (None, MAX_SAFE_INTEGER)) of
                   Some h \<Rightarrow> Some (playlist_id h)
                 | None \<Rightarrow> if truthy (current_playlist screen) then current_playlist screen
                           else currentPlaylistId st))
   \<and> (\<not> truthy (deviceId st) \<or> fetched = Failed \<or> fetched = Response None
        \<or> (fetched = Response (Some screen)
            \<and> (schedule screen = None \<or> (schedule screen = Some sched \<and> upcoming sched = [])))
        \<longrightarrow> checkSchedule now fetched st = (False, st))
   \<and> deviceId (snd (checkSchedule now fetched st)) = deviceId st"
proof -
  have settles: "truthy (deviceId st) \<and> schedule screen = Some sched \<and> upcoming sched \<noteq> []
        \<longrightarrow> currentPlaylistId (snd (checkSchedule now (Response (Some screen)) st))
              = (case fst (scanSchedules (currentDay now) (currentTime now) (upcoming sched)
                             (None, MAX_SAFE_INTEGER)) of
                   Some h \<Rightarrow> Some (playlist_id h)
                 | None \<Rightarrow> if truthy (current_playlist screen) then current_playlist screen
                           else currentPlaylistId st)"
    using checkSchedule_settles [of st screen sched now] by blast
  have idle: "\<not> truthy (deviceId st) \<or> fetched = Failed \<or> fetched = Response None
        \<or> (fetched = Response (Some screen)
            \<and> (schedule screen = None \<or> (schedule screen = Some sched \<and> upcoming sched = [])))
        \<longrightarrow> checkSchedule now fetched st = (False, st)"
    using checkSchedule_idle [of st fetched screen sched now] by blast
  have fixd: "fst (checkSchedule now fetched st) \<and> truthy (deviceId st')
        \<longrightarrow> currentPlaylistId (snd (checkSchedule now fetched st'))
              = currentPlaylistId (snd (checkSchedule now fetched st))"
    using checkSchedule_fixes [of now fetched st st'] by blast
  note again = checkSchedule_again [of now fetched st]
  note emits = checkSchedule_true_iff [of now fetched st]
  note dev = checkSchedule_deviceId [of now fetched st]
  show ?thesis
    by (intro conjI; fact)
qed

text \<open>With the one rule \<open>P1\<close> active on a Monday at 10:00, the check of a fresh service emits
  true and settles on \<open>P1\<close>; from a service that remembers \<open>P0\<close> it settles on \<open>P1\<close> as well;
  a service without a device id emits false and remembers what it remembered.\<close>

theorem checkSchedule_successive_witness:
  "checkSchedule \<lparr>weekday = Monday, hours = 10, minutes = 0, seconds = 0\<rparr>
      (Response (Some \<lparr>current_playlist = None,
         schedule = Some \<lparr>upcoming =
           [\<lparr>playlist_id = ''P1'', start_time = ''09:00'', end_time = ''17:00'',
              priority = 1, days_of_week = None\<rparr>]\<rparr>\<rparr>))
      \<lparr>deviceId = Some ''screen-1'', currentPlaylistId = None, serverUpdates = []\<rparr>
     = (True, \<lparr>deviceId = Some ''screen-1'', currentPlaylistId = Some ''P1'',
               serverUpdates = [''P1'']\<rparr>)
   \<and> currentPlaylistId (snd (checkSchedule \<lparr>weekday = Monday, hours = 10, minutes = 0, seconds = 0\<rparr>
      (Response (Some \<lparr>current_playlist = None,
         schedule = Some \<lparr>upcoming =
           [\<lparr>playlist_id = ''P1'', start_time = ''09:00'', end_time = ''17:00'',
              priority = 1, days_of_week = None\<rparr>]\<rparr>\<rparr>))
      \<lparr>deviceId = Some ''screen-1'', currentPlaylistId = Some ''P0'', serverUpdates = []\<rparr>))
     = Some ''P1''
   \<and> checkSchedule \<lparr>weekday = Monday, hours = 10, minutes = 0, seconds = 0\<rparr>
      (Response (Some \<lparr>current_playlist = None,
         schedule = Some \<lparr>upcoming =
           [\<lparr>playlist_id = ''P1'', start_time = ''09:00'', end_time = ''17:00'',
              priority = 1, days_of_week = None\<rparr>]\<rparr>\<rparr>))
      \<lparr>deviceId = Some ''screen-1'', currentPlaylistId = Some ''P1'', serverUpdates = [''P1'']\<rparr>
     = (False, \<lparr>deviceId = Some ''screen-1'', currentPlaylistId = Some ''P1'',
               serverUpdates = [''P1'']\<rparr>)
   \<and> checkSchedule \<lparr>weekday = Monday, hours = 10, minutes = 0, seconds = 0\<rparr>
      (Response (Some \<lparr>current_playlist = None,
         schedule = Some \<lparr>upcoming =
           [\<lparr>playlist_id = ''P1'', start_time = ''09:00'', end_time = ''17:00'',
              priority = 1, days_of_week = None\<rparr>]\<rparr>\<rparr>))
      \<lparr>deviceId = None, currentPlaylistId = Some ''P0'', serverUpdates = []\<rparr>
     = (False, \<lparr>deviceId = None, currentPlaylistId = Some ''P0'', serverUpdates = []\<rparr>)"
proof -
  let ?now = "\<lparr>weekday = Monday, hours = 10, minutes = 0, seconds = 0\<rparr>"
  let ?r = "\<lparr>playlist_id = ''P1'', start_time = ''09:00'', end_time = ''17:00'',
              priority = 1, days_of_week = None\<rparr>"
  let ?sched = "\<lparr>upcoming = [?r]\<rparr>"
  let ?screen = "\<lparr>current_playlist = None, schedule = Some ?sched\<rparr>"
  let ?fresh = "\<lparr>deviceId = Some ''screen-1'', currentPlaylistId = None, serverUpdates = []\<rparr>"
  let ?old = "\<lparr>deviceId = Some ''screen-1'', currentPlaylistId = Some ''P0'', serverUpdates = []\<rparr>"
  let ?anon = "\<lparr>deviceId = None, currentPlaylistId = Some ''P0'', serverUpdates = []\<rparr>"
  let ?after = "\<lparr>deviceId = Some ''screen-1'', currentPlaylistId = Some ''P1'',
               serverUpdates = [''P1'']\<rparr>"
  have t: "currentTime ?now = ''10:00''"
    by code_simp
  have first: "checkSchedule ?now (Response (Some ?screen)) ?fresh = (True, ?after)"
    by (simp add: t currentDay_def isActiveDay_def isActiveTime_def days_def allDays_def
        MAX_SAFE_INTEGER_def checkSchedule_def updateCurrentPlaylist_def Let_def)
  have scan: "fst (scanSchedules (currentDay ?now) (currentTime ?now) (upcoming ?sched)
      (None, MAX_SAFE_INTEGER)) = Some ?r"
    by (simp add: t currentDay_def isActiveDay_def isActiveTime_def days_def allDays_def
        MAX_SAFE_INTEGER_def)
  have h: "truthy (deviceId ?old)" "schedule ?screen = Some ?sched" "upcoming ?sched \<noteq> []"
    "\<not> truthy (deviceId ?anon)"
    by simp_all
  note a = checkSchedule_successive [of ?now "Response (Some ?screen)" ?fresh ?old ?screen ?sched]
  note b = checkSchedule_successive [of ?now "Response (Some ?screen)" ?old ?old ?screen ?sched]
  note c = checkSchedule_successive [of ?now "Response (Some ?screen)" ?anon ?old ?screen ?sched]
  note a1 = a [THEN conjunct1]
  note a3 = a [THEN conjunct2, THEN conjunct2, THEN conjunct1]
  note b4 = b [THEN conjunct2, THEN conjunct2, THEN conjunct2, THEN conjunct1]
  note c5 = c [THEN conjunct2, THEN conjunct2, THEN conjunct2, THEN conjunct2, THEN conjunct1]
  from a1 have second: "checkSchedule ?now (Response (Some ?screen)) ?after = (False, ?after)"
    unfolding first by (simp only: snd_conv)
  have "fst (checkSchedule ?now (Response (Some ?screen)) ?fresh) \<and> truthy (deviceId ?old)"
    unfolding first using h(1) by (simp only: fst_conv simp_thms)
  from a3 [rule_format, OF this]
  have "currentPlaylistId (snd (checkSchedule ?now (Response (Some ?screen)) ?old))
      = currentPlaylistId (snd (checkSchedule ?now (Response (Some ?screen)) ?fresh))" .
  then have fixed: "currentPlaylistId (snd (checkSchedule ?now (Response (Some ?screen)) ?old))
      = Some ''P1''" unfolding first by simp
  have "truthy (deviceId ?old) \<and> schedule ?screen = Some ?sched \<and> upcoming ?sched \<noteq> []"
    using h(1,2,3) by (intro conjI)
  from b4 [rule_format, OF this]
  have "currentPlaylistId (snd (checkSchedule ?now (Response (Some ?screen)) ?old))
      = (case fst (scanSchedules (currentDay ?now) (currentTime ?now) (upcoming ?sched)
                     (None, MAX_SAFE_INTEGER)) of
           Some h \<Rightarrow> Some (playlist_id h)
         | None \<Rightarrow> if truthy (current_playlist ?screen) then current_playlist ?screen
                   else currentPlaylistId ?old)" .
  then have settled: "currentPlaylistId (snd (checkSchedule ?now (Response (Some ?screen)) ?old))
      = Some (playlist_id ?r)" unfolding scan by (simp only: option.case)
  have "\<not> truthy (deviceId ?anon) \<or> Response (Some ?screen) = Failed
      \<or> Response (Some ?screen) = Response None
      \<or> (Response (Some ?screen) = Response (Some ?screen)
            \<and> (schedule ?screen = None \<or> (schedule ?screen = Some ?sched \<and> upcoming ?sched = [])))"
    using h(4) by (rule disjI1)
  from c5 [rule_format, OF this]
  have anon: "checkSchedule ?now (Response (Some ?screen)) ?anon = (False, ?anon)" .
  show ?thesis
    by (intro conjI; fact)
qed

section \<open>The playback engine\<close>

lemma preloadNextItem_fields:
  "currentIndex (preloadNextItem s) = currentIndex s"
  "currentPlaylist (preloadNextItem s) = currentPlaylist s"
  "isTransitioning (preloadNextItem s) = isTransitioning s"
  "itemTimeouts (preloadNextItem s) = itemTimeouts s"
  "playerState (preloadNextItem s) = playerState s"
  "currentTransitionTimeout (preloadNextItem s) = currentTransitionTimeout s"
  "playbackError (preloadNextItem s) = playbackError s"
  by (simp_all add: preloadNextItem_def preloadContent_def Let_def split: option.split)

lemma playCurrentItem_nonempty:
  assumes "currentPlaylist s = Some p" "items p \<noteq> []"
  shows "currentIndex (playCurrentItem s) = currentIndex s"
    and "currentPlaylist (playCurrentItem s) = Some p"
    and "\<not> isTransitioning (playCurrentItem s)"
    and "currentItemIndex (playerState (playCurrentItem s)) = currentIndex s"
    and "isPlaying (playerState (playCurrentItem s))"
    and "itemTimeouts (playCurrentItem s) = itemTimeouts s @
           [if currentIndex s < length (items p) then Some (items p ! currentIndex s) else None]"
    and "currentTransitionTimeout (playCurrentItem s) = currentTransitionTimeout s"
    and "playbackError (playCurrentItem s) = playbackError s"
  using assms
  by (simp_all add: playCurrentItem_def updatePlayerState_def Let_def preloadNextItem_fields)

text \<open>
  C5. With a playlist of \<open>n \<ge> 1\<close> items loaded and the index at \<open>i\<close>, \<open>skipToNext\<close> raises the
  transitioning flag and arms the transition timer with the delay of the current item,
  leaving playlist and index as they are; when that timer runs out, the index is
  \<open>(i + 1) mod n\<close> (so 0 after the last item, whatever the playlist's \<open>loop\<close> setting), the
  player state carries that index, the transitioning flag is down, no timer is pending, and
  the item at the new index is the one emitted as current item.
\<close>

theorem skipToNext_advances:
  assumes "currentPlaylist s = Some p" and "items p \<noteq> []"
  shows "isTransitioning (skipToNext s)
    \<and> currentTransitionTimeout (skipToNext s) = Some (getTransitionDuration s)
    \<and> currentPlaylist (skipToNext s) = Some p
    \<and> currentIndex (skipToNext s) = currentIndex s
    \<and> (\<exists>s'. fireTransitionTimer (skipToNext s) = Some s'
          \<and> currentPlaylist s' = Some p
          \<and> currentIndex s' = (currentIndex s + 1) mod length (items p)
          \<and> currentItemIndex (playerState s') = (currentIndex s + 1) mod length (items p)
          \<and> (currentIndex s + 1 = length (items p) \<longrightarrow> currentIndex s' = 0)
          \<and> \<not> isTransitioning s'
          \<and> currentTransitionTimeout s' = None
          \<and> fireTransitionTimer s' = Some s'
          \<and> currentItem (runItemTimeouts s')
               = Some (items p ! ((currentIndex s + 1) mod length (items p))))"
proof -
  let ?s1 = "skipToNext s"
  let ?j = "(currentIndex s + 1) mod length (items p)"
  have s1: "currentPlaylist ?s1 = Some p" "currentIndex ?s1 = currentIndex s" "isTransitioning ?s1"
    using assms by (simp_all add: skipToNext_def clearTransition_def Let_def)
  have armed: "currentTransitionTimeout ?s1 = Some (getTransitionDuration s)"
    using assms
    by (simp add: skipToNext_def clearTransition_def getTransitionDuration_def Let_def)
  let ?s2 = "?s1\<lparr>currentIndex := ?j, isTransitioning := False\<rparr>"
  have s2: "currentPlaylist ?s2 = Some p" "currentIndex ?s2 = ?j"
    using s1 by simp_all
  have j: "?j < length (items p)" using assms by simp
  let ?s' = "(playCurrentItem ?s2)\<lparr>currentTransitionTimeout := None\<rparr>"
  have "transitionTimeout ?s1 = Some ?s'"
    using assms s1 by (simp add: transitionTimeout_def Let_def)
  with armed have tt: "fireTransitionTimer ?s1 = Some ?s'"
    by (simp add: fireTransitionTimer_def)
  note pc = playCurrentItem_nonempty [OF s2(1) assms(2)]
  have "currentPlaylist ?s' = Some p" using pc(2) by simp
  moreover have "currentIndex ?s' = ?j" using pc(1) s2 by simp
  moreover have "currentItemIndex (playerState ?s') = ?j" using pc(4) s2 by simp
  moreover have "currentIndex s + 1 = length (items p) \<longrightarrow> currentIndex ?s' = 0"
  proof
    assume "currentIndex s + 1 = length (items p)"
    then have z: "?j = 0" by simp
    have "currentIndex ?s' = ?j" using pc(1) s2 by simp
    also note z
    finally show "currentIndex ?s' = 0" .
  qed
  moreover have "\<not> isTransitioning ?s'" using pc(3) by simp
  moreover have "currentTransitionTimeout ?s' = None" by simp
  moreover have "fireTransitionTimer ?s' = Some ?s'" by (simp add: fireTransitionTimer_def)
  moreover have "currentItem (runItemTimeouts ?s') = Some (items p ! ?j)"
    using pc(6) s2 j by (simp add: runItemTimeouts_def)
  ultimately show ?thesis using tt s1 armed by blast
qed

text \<open>From the last of two items of a playlist whose \<open>loop\<close> setting is off, the engine
  arms a timer of one second and, when it runs out, goes back to the first item.\<close>

theorem skipToNext_advances_witness:
  "currentTransitionTimeout (skipToNext (initialPlaybackService
        \<lparr>currentPlaylist := Some (samplePlaylist ''P1'' [sampleItem ''a'' Fade 1, sampleItem ''b'' Slide 1]),
         currentIndex := 1, currentItem := Some (sampleItem ''b'' Slide 1)\<rparr>)) = Some 1000
   \<and> currentIndex (the (fireTransitionTimer (skipToNext (initialPlaybackService
        \<lparr>currentPlaylist := Some (samplePlaylist ''P1'' [sampleItem ''a'' Fade 1, sampleItem ''b'' Slide 1]),
         currentIndex := 1, currentItem := Some (sampleItem ''b'' Slide 1)\<rparr>)))) = 0
   \<and> \<not> isTransitioning (the (fireTransitionTimer (skipToNext (initialPlaybackService
        \<lparr>currentPlaylist := Some (samplePlaylist ''P1'' [sampleItem ''a'' Fade 1, sampleItem ''b'' Slide 1]),
         currentIndex := 1, currentItem := Some (sampleItem ''b'' Slide 1)\<rparr>))))
   \<and> currentItem (runItemTimeouts (the (fireTransitionTimer (skipToNext (initialPlaybackService
        \<lparr>currentPlaylist := Some (samplePlaylist ''P1'' [sampleItem ''a'' Fade 1, sampleItem ''b'' Slide 1]),
         currentIndex := 1, currentItem := Some (sampleItem ''b'' Slide 1)\<rparr>)))))
       = Some (sampleItem ''a'' Fade 1)"
proof -
  let ?s = "initialPlaybackService
        \<lparr>currentPlaylist := Some (samplePlaylist ''P1'' [sampleItem ''a'' Fade 1, sampleItem ''b'' Slide 1]),
         currentIndex := 1, currentItem := Some (sampleItem ''b'' Slide 1)\<rparr>"
  have h: "currentPlaylist ?s
      = Some (samplePlaylist ''P1'' [sampleItem ''a'' Fade 1, sampleItem ''b'' Slide 1])"
    and n: "items (samplePlaylist ''P1'' [sampleItem ''a'' Fade 1, sampleItem ''b'' Slide 1]) \<noteq> []"
    by (simp_all add: samplePlaylist_def)
  have g: "getTransitionDuration ?s = 1000"
    by (simp add: getTransitionDuration_def sampleItem_def)
  have i: "currentIndex ?s = 1" by simp
  have l: "length (items (samplePlaylist ''P1'' [sampleItem ''a'' Fade 1, sampleItem ''b'' Slide 1])) = 2"
    and it: "items (samplePlaylist ''P1'' [sampleItem ''a'' Fade 1, sampleItem ''b'' Slide 1]) ! 0
      = sampleItem ''a'' Fade 1"
    by (simp_all add: samplePlaylist_def)
  from skipToNext_advances [OF h n] obtain s' where
    a: "currentTransitionTimeout (skipToNext ?s) = Some (getTransitionDuration ?s)"
    and f: "fireTransitionTimer (skipToNext ?s) = Some s'"
    and c: "currentIndex s' = (currentIndex ?s + 1)
        mod length (items (samplePlaylist ''P1'' [sampleItem ''a'' Fade 1, sampleItem ''b'' Slide 1]))"
    and t: "\<not> isTransitioning s'"
    and e: "currentItem (runItemTimeouts s')
      = Some (items (samplePlaylist ''P1'' [sampleItem ''a'' Fade 1, sampleItem ''b'' Slide 1])
          ! ((currentIndex ?s + 1)
             mod length (items (samplePlaylist ''P1'' [sampleItem ''a'' Fade 1, sampleItem ''b'' Slide 1]))))"
    by blast
  have z: "(currentIndex ?s + 1)
      mod length (items (samplePlaylist ''P1'' [sampleItem ''a'' Fade 1, sampleItem ''b'' Slide 1])) = 0"
    unfolding i l by simp
  have "currentTransitionTimeout (skipToNext ?s) = Some 1000" using a g by simp
  moreover have "currentIndex (the (fireTransitionTimer (skipToNext ?s))) = 0"
    using f c z by simp
  moreover have "\<not> isTransitioning (the (fireTransitionTimer (skipToNext ?s)))"
    using f t by simp
  moreover have "currentItem (runItemTimeouts (the (fireTransitionTimer (skipToNext ?s))))
      = Some (sampleItem ''a'' Fade 1)"
    using f e z it by simp
  ultimately show ?thesis by blast
qed

text \<open>
  C8, as stated: whenever the current item's transition type is not \<open>none\<close>, \<open>skipToNext\<close>
  waits the item's \<open>transitionDuration\<close> in milliseconds. For an item with a fade of
  duration 0 the product is 0, yet the timer is armed with 500.
\<close>

theorem skipToNext_delay_counterexample:
  "currentTransitionTimeout
     (skipToNext (initialPlaybackService
        \<lparr>currentPlaylist := Some (samplePlaylist ''P1'' [sampleItem ''a'' Fade 0]),
         currentItem := Some (sampleItem ''a'' Fade 0)\<rparr>)) = Some 500
   \<and> transition (item_settings (sampleItem ''a'' Fade 0)) \<noteq> NoTransition
   \<and> transitionDuration (item_settings (sampleItem ''a'' Fade 0)) * 1000 \<noteq> 500"
  by (simp add: skipToNext_def clearTransition_def getTransitionDuration_def Let_def
      initialPlaybackService_def samplePlaylist_def sampleItem_def)

text \<open>
  C8, amended. With a non-empty playlist loaded, the delay \<open>skipToNext\<close> waits is, in
  milliseconds: 1000 times the current item's \<open>transitionDuration\<close> when its transition type
  is not \<open>none\<close> and the duration is not zero; the default 500 when the type is not \<open>none\<close> and
  the duration is zero; and 0 when the type is \<open>none\<close> or no current item has been emitted.
\<close>

theorem skipToNext_delay:
  "currentPlaylist s = Some p \<Longrightarrow> items p \<noteq> [] \<Longrightarrow>
   currentTransitionTimeout (skipToNext s) =
     Some (case currentItem s of
             None \<Rightarrow> 0
           | Some item \<Rightarrow>
               if transition (item_settings item) = NoTransition then 0
               else if transitionDuration (item_settings item) = 0 then 500
               else transitionDuration (item_settings item) * 1000)"
  by (simp add: skipToNext_def clearTransition_def getTransitionDuration_def Let_def
      split: option.split)

text \<open>A fade of half a second arms the timer with 500 milliseconds.\<close>

theorem skipToNext_delay_witness:
  "currentTransitionTimeout
     (skipToNext (initialPlaybackService
        \<lparr>currentPlaylist := Some (samplePlaylist ''P1'' [sampleItem ''a'' Fade (1 / 2)]),
         currentItem := Some (sampleItem ''a'' Fade (1 / 2))\<rparr>)) = Some 500"
proof -
  have h: "currentPlaylist (initialPlaybackService
        \<lparr>currentPlaylist := Some (samplePlaylist ''P1'' [sampleItem ''a'' Fade (1 / 2)]),
         currentItem := Some (sampleItem ''a'' Fade (1 / 2))\<rparr>)
      = Some (samplePlaylist ''P1'' [sampleItem ''a'' Fade (1 / 2)])"
    and n: "items (samplePlaylist ''P1'' [sampleItem ''a'' Fade (1 / 2)]) \<noteq> []"
    by (simp_all add: samplePlaylist_def)
  show ?thesis
    using skipToNext_delay [OF h n]
    by (simp add: sampleItem_def)
qed

text \<open>
  C10. Whenever a playlist is loaded, the index is a position of its item list.
  \<open>processPlaylist\<close> loads a playlist only if it has an item; \<open>loadFallbackContent\<close> loads
  whatever \<open>getFallbackPlaylist\<close> emits. When the directory answers with a playlist without
  items (as it does when the item query fails), \<open>loadPlaylist\<close> caches it and hands it to
  \<open>processPlaylist\<close>, which turns to the fallback; with no bundled document the newest cached
  playlist is that very one, and the engine ends with an empty playlist loaded at index 0, the
  error cleared and the state playing.
\<close>

theorem loadFallbackContent_empty_playlist:
  "currentPlaylist (processPlaylist quietEnv
       (fst (cachePlaylist quietEnv (samplePlaylist ''P1'' []) (openedContentSyncService [] [])))
       (samplePlaylist ''P1'' []) initialPlaybackService)
     = Some (samplePlaylist ''P1'' [])
   \<and> currentIndex (processPlaylist quietEnv
       (fst (cachePlaylist quietEnv (samplePlaylist ''P1'' []) (openedContentSyncService [] [])))
       (samplePlaylist ''P1'' []) initialPlaybackService) = 0
   \<and> length (items (samplePlaylist ''P1'' [])) = 0
   \<and> playbackError (processPlaylist quietEnv
       (fst (cachePlaylist quietEnv (samplePlaylist ''P1'' []) (openedContentSyncService [] [])))
       (samplePlaylist ''P1'' []) initialPlaybackService) = None
   \<and> isPlaying (playerState (processPlaylist quietEnv
       (fst (cachePlaylist quietEnv (samplePlaylist ''P1'' []) (openedContentSyncService [] [])))
       (samplePlaylist ''P1'' []) initialPlaybackService))"
proof -
  have c: "fst (cachePlaylist quietEnv (samplePlaylist ''P1'' []) (openedContentSyncService [] []))
     = (openedContentSyncService [] [])\<lparr>db := Some \<lparr>contentStore = [],
          playlistStore = [Playlist.extend (samplePlaylist ''P1'' []) \<lparr>timestamp' = 1000\<rparr>]\<rparr>\<rparr>"
    by (simp add: cachePlaylist_def openedContentSyncService_def quietEnv_def ensureInitialized_def
        storePut_def preloadUrls_def)
  have f: "getFallbackPlaylist quietEnv
      (fst (cachePlaylist quietEnv (samplePlaylist ''P1'' []) (openedContentSyncService [] [])))
     = Some (samplePlaylist ''P1'' [])"
    unfolding c
    by (simp add: getFallbackPlaylist_def openedContentSyncService_def quietEnv_def
        ensureInitialized_def newestFirst_def Playlist.defs samplePlaylist_def)
  show ?thesis
    by (simp add: processPlaylist_def loadFallbackContent_def f playCurrentItem_def
        updatePlayerState_def Let_def)
      (simp add: samplePlaylist_def initialPlaybackService_def)
qed

section \<open>Resolving a content address\<close>

lemma downloadContent_result:
  "(\<exists>e s'. downloadContent env u s = (Inl e, s')
        \<and> (u = [] \<or> retry 2 (httpGet env) = Failed \<or> createObjectURL env = None))
   \<or> (\<exists>h b s'. downloadContent env u s = (Inr (''blob:'' @ h), s')
        \<and> u \<noteq> [] \<and> retry 2 (httpGet env) = Response b \<and> createObjectURL env = Some h)"
  by (auto simp: downloadContent_def Let_def split: response.splits option.splits prod.splits)

text \<open>
  C3. For every address string, \<open>getLocalContentUrl\<close> emits exactly one value, then
  completes, and signals no error. The empty address is emitted as it is. The original
  address is emitted when the database is not available (the initialisation promise does
  not resolve to true, or no database is open once it has settled), when the read of the
  store throws or fails, when no blob URL can be created, and when the content has to be
  downloaded and the download fails after its retries. Otherwise a local URL is emitted:
  the tracked one, or a fresh blob URL made from the stored or the downloaded bytes.
\<close>

theorem getLocalContentUrl_emits_once:
  "(\<exists>v. fst (getLocalContentUrl env originalUrl s) = [Next v, Complete])
   \<and> (originalUrl = [] \<longrightarrow> fst (getLocalContentUrl env originalUrl s) = [Next originalUrl, Complete])
   \<and> (ensureInitialized env s \<noteq> Resolves True \<or> db (initDatabase env s) = None
        \<longrightarrow> fst (getLocalContentUrl env originalUrl s) = [Next originalUrl, Complete])
   \<and> (blobCache (initDatabase env s) originalUrl = None \<and> (transactionThrows env \<or> requestFails env)
        \<longrightarrow> fst (getLocalContentUrl env originalUrl s) = [Next originalUrl, Complete])
   \<and> (blobCache (initDatabase env s) originalUrl = None \<and> createObjectURL env = None
        \<longrightarrow> fst (getLocalContentUrl env originalUrl s) = [Next originalUrl, Complete])
   \<and> (blobCache (initDatabase env s) originalUrl = None
          \<and> (\<forall>d c. db (initDatabase env s) = Some d
                  \<longrightarrow> storeGet url originalUrl (contentStore d) = Some c \<longrightarrow> blob c = None)
          \<and> retry 2 (httpGet env) = Failed
        \<longrightarrow> fst (getLocalContentUrl env originalUrl s) = [Next originalUrl, Complete])
   \<and> (originalUrl \<noteq> [] \<and> ensureInitialized env s = Resolves True
          \<and> db (initDatabase env s) = Some d \<and> blobCache (initDatabase env s) originalUrl = Some lu
        \<longrightarrow> fst (getLocalContentUrl env originalUrl s) = [Next lu, Complete])
   \<and> (originalUrl \<noteq> [] \<and> ensureInitialized env s = Resolves True
          \<and> db (initDatabase env s) = Some d \<and> blobCache (initDatabase env s) originalUrl = None
          \<and> \<not> transactionThrows env \<and> \<not> requestFails env \<and> createObjectURL env = Some h
          \<and> ((\<exists>c b. storeGet url originalUrl (contentStore d) = Some c \<and> blob c = Some b)
               \<or> retry 2 (httpGet env) \<noteq> Failed)
        \<longrightarrow> fst (getLocalContentUrl env originalUrl s) = [Next (''blob:'' @ h), Complete])"
proof -
  let ?s = "initDatabase env s"
  note dl = downloadContent_result [of env originalUrl ?s]
  have 1: "\<exists>v. fst (getLocalContentUrl env originalUrl s) = [Next v, Complete]"
    using dl
    by (auto simp: getLocalContentUrl_def Let_def split: promise.splits option.splits)
  have 2: "originalUrl = [] \<longrightarrow> fst (getLocalContentUrl env originalUrl s) = [Next originalUrl, Complete]"
    by (simp add: getLocalContentUrl_def)
  have 3: "ensureInitialized env s \<noteq> Resolves True \<or> db ?s = None
        \<longrightarrow> fst (getLocalContentUrl env originalUrl s) = [Next originalUrl, Complete]"
    by (auto simp: getLocalContentUrl_def Let_def split: promise.splits option.splits)
  have 4: "blobCache ?s originalUrl = None \<and> (transactionThrows env \<or> requestFails env)
        \<longrightarrow> fst (getLocalContentUrl env originalUrl s) = [Next originalUrl, Complete]"
    by (auto simp: getLocalContentUrl_def Let_def split: promise.splits option.splits)
  have 5: "blobCache ?s originalUrl = None \<and> createObjectURL env = None
        \<longrightarrow> fst (getLocalContentUrl env originalUrl s) = [Next originalUrl, Complete]"
    using dl
    by (auto simp: getLocalContentUrl_def Let_def split: promise.splits option.splits)
  have 6: "blobCache ?s originalUrl = None
          \<and> (\<forall>d c. db ?s = Some d
                  \<longrightarrow> storeGet url originalUrl (contentStore d) = Some c \<longrightarrow> blob c = None)
          \<and> retry 2 (httpGet env) = Failed
        \<longrightarrow> fst (getLocalContentUrl env originalUrl s) = [Next originalUrl, Complete]"
    using dl
    by (auto simp: getLocalContentUrl_def Let_def split: promise.splits option.splits)
  have 7: "originalUrl \<noteq> [] \<and> ensureInitialized env s = Resolves True
          \<and> db ?s = Some d \<and> blobCache ?s originalUrl = Some lu
        \<longrightarrow> fst (getLocalContentUrl env originalUrl s) = [Next lu, Complete]"
    by (simp add: getLocalContentUrl_def Let_def)
  have 8: "originalUrl \<noteq> [] \<and> ensureInitialized env s = Resolves True
          \<and> db ?s = Some d \<and> blobCache ?s originalUrl = None
          \<and> \<not> transactionThrows env \<and> \<not> requestFails env \<and> createObjectURL env = Some h
          \<and> ((\<exists>c b. storeGet url originalUrl (contentStore d) = Some c \<and> blob c = Some b)
               \<or> retry 2 (httpGet env) \<noteq> Failed)
        \<longrightarrow> fst (getLocalContentUrl env originalUrl s) = [Next (''blob:'' @ h), Complete]"
    using dl
    by (auto simp: getLocalContentUrl_def Let_def split: option.splits)
  show ?thesis by (intro conjI; fact)
qed

text \<open>Three failed attempts on an empty cache, a failing read, and a database that cannot
  be opened each give the remote address back; a service whose database is still being
  opened serves the stored bytes once the opening has succeeded.\<close>

theorem getLocalContentUrl_emits_once_witness:
  "fst (getLocalContentUrl (quietEnv\<lparr>httpGet := [Failed, Failed, Failed]\<rparr>) ''https://cdn.example/a''
          (openedContentSyncService [] []))
     = [Next ''https://cdn.example/a'', Complete]
   \<and> fst (getLocalContentUrl (quietEnv\<lparr>requestFails := True\<rparr>) ''https://cdn.example/a''
          (openedContentSyncService [] []))
     = [Next ''https://cdn.example/a'', Complete]
   \<and> fst (getLocalContentUrl (quietEnv\<lparr>initPromise := Rejects\<rparr>) ''https://cdn.example/a''
          ((openedContentSyncService [] [])\<lparr>db := None, isInitialized := False\<rparr>))
     = [Next ''https://cdn.example/a'', Complete]
   \<and> fst (getLocalContentUrl
            (quietEnv\<lparr>openedDatabase := \<lparr>contentStore = [sampleContent ''a'' 10 7], playlistStore = []\<rparr>\<rparr>)
            ''https://cdn.example/a''
            ((openedContentSyncService [] [])\<lparr>db := None, isInitialized := False\<rparr>))
     = [Next ''blob:0'', Complete]"
proof -
  let ?u = "''https://cdn.example/a''"
  let ?s = "openedContentSyncService [] []"
  let ?p = "(openedContentSyncService [] [])\<lparr>db := None, isInitialized := False\<rparr>"
  let ?e1 = "quietEnv\<lparr>httpGet := [Failed, Failed, Failed]\<rparr>"
  let ?e2 = "quietEnv\<lparr>requestFails := True\<rparr>"
  let ?e3 = "quietEnv\<lparr>initPromise := Rejects\<rparr>"
  let ?d = "\<lparr>contentStore = [sampleContent ''a'' 10 7], playlistStore = []\<rparr>"
  let ?e4 = "quietEnv\<lparr>openedDatabase := ?d\<rparr>"
  have i: "initDatabase e ?s = ?s" for e
    by (simp add: initDatabase_def openedContentSyncService_def)
  have a: "blobCache (initDatabase ?e1 ?s) ?u = None
      \<and> (\<forall>d c. db (initDatabase ?e1 ?s) = Some d
             \<longrightarrow> storeGet url ?u (contentStore d) = Some c \<longrightarrow> blob c = None)
      \<and> retry 2 (httpGet ?e1) = Failed"
    unfolding i by (simp add: openedContentSyncService_def storeGet_def numeral_2_eq_2)
  have b: "blobCache (initDatabase ?e2 ?s) ?u = None
      \<and> (transactionThrows ?e2 \<or> requestFails ?e2)"
    unfolding i by (simp add: openedContentSyncService_def)
  have c: "ensureInitialized ?e3 ?p \<noteq> Resolves True \<or> db (initDatabase ?e3 ?p) = None"
    by (simp add: ensureInitialized_def)
  have j: "initDatabase ?e4 ?p = ?p\<lparr>db := Some ?d, isInitialized := True\<rparr>"
    by (simp add: initDatabase_def quietEnv_def)
  have d: "?u \<noteq> [] \<and> ensureInitialized ?e4 ?p = Resolves True
          \<and> db (initDatabase ?e4 ?p) = Some ?d \<and> blobCache (initDatabase ?e4 ?p) ?u = None
          \<and> \<not> transactionThrows ?e4 \<and> \<not> requestFails ?e4 \<and> createObjectURL ?e4 = Some ''0''
          \<and> ((\<exists>c b. storeGet url ?u (contentStore ?d) = Some c \<and> blob c = Some b)
               \<or> retry 2 (httpGet ?e4) \<noteq> Failed)"
    unfolding j
    by (simp add: ensureInitialized_def quietEnv_def openedContentSyncService_def storeGet_def
        sampleContent_def)
  from a getLocalContentUrl_emits_once [of ?e1 ?u ?s]
  have 1: "fst (getLocalContentUrl ?e1 ?u ?s) = [Next ?u, Complete]" by blast
  from b getLocalContentUrl_emits_once [of ?e2 ?u ?s]
  have 2: "fst (getLocalContentUrl ?e2 ?u ?s) = [Next ?u, Complete]" by blast
  from c getLocalContentUrl_emits_once [of ?e3 ?u ?p]
  have 3: "fst (getLocalContentUrl ?e3 ?u ?p) = [Next ?u, Complete]" by blast
  from d getLocalContentUrl_emits_once [of ?e4 ?u ?p ?d _ "''0''"]
  have 4: "fst (getLocalContentUrl ?e4 ?u ?p) = [Next (''blob:'' @ ''0''), Complete]" by blast
  from 1 2 3 4 show ?thesis by simp
qed

section \<open>The playlist cache\<close>

lemma sorted_le_last: "sorted xs \<Longrightarrow> x \<in> set xs \<Longrightarrow> x \<le> last xs"
  by (induction xs) auto

lemma newestFirst_head:
  assumes "playlistStore d \<noteq> []"
  shows "\<exists>c rest. newestFirst d = c # rest \<and> c \<in> set (playlistStore d)
           \<and> (\<forall>c'\<in>set (playlistStore d). timestamp' c' \<le> timestamp' c)"
proof -
  let ?k = "\<lambda>p::CachedPlaylist. (timestamp' p, id' p)"
  let ?xs = "sort_key ?k (playlistStore d)"
  have ne: "?xs \<noteq> []" using assms by (metis length_sort length_0_conv)
  have srt: "sorted (map ?k ?xs)" by (rule sorted_sort_key)
  let ?c = "last ?xs"
  have hd: "newestFirst d = ?c # rev (butlast ?xs)"
    using ne by (simp add: newestFirst_def rev_eq_Cons_iff)
  have mem: "?c \<in> set (playlistStore d)"
    using ne last_in_set [of ?xs] by simp
  have "\<forall>c'\<in>set (playlistStore d). timestamp' c' \<le> timestamp' ?c"
  proof
    fix c' assume "c' \<in> set (playlistStore d)"
    then have "?k c' \<in> set (map ?k ?xs)" by simp
    with srt have "?k c' \<le> last (map ?k ?xs)" by (rule sorted_le_last)
    also have "last (map ?k ?xs) = ?k ?c" using ne by (simp add: last_map)
    finally show "timestamp' c' \<le> timestamp' ?c" by (auto simp: less_eq_prod_def)
  qed
  with hd mem show ?thesis by blast
qed

lemma storeGet_storePut: "storeGet key (key x) (storePut key x xs) = Some x"
  by (induction xs) (simp_all add: storeGet_def storePut_def)

lemma playlistView_evict: "playlistView (evict c s) = playlistView s"
  by (cases "db s") (simp_all add: playlistView_def evict_def revokeObjectURL_def Let_def)

lemma playlistView_trimCursor: "playlistView (trimCursor env cs n s) = playlistView s"
proof (induction cs arbitrary: n s)
  case Nil
  show ?case by (simp add: playlistView_def)
next
  case (Cons c cs)
  show ?case by (simp add: Cons.IH playlistView_evict) (simp add: playlistView_def)
qed

lemma playlistView_trimCache: "playlistView (trimCache env s) = playlistView s"
  by (simp add: trimCache_def playlistView_trimCursor split: option.split)

lemma playlistView_cacheSizeBytes: "playlistView (s\<lparr>cacheSizeBytes := n\<rparr>) = playlistView s"
  and playlistView_blobCache: "playlistView (s\<lparr>blobCache := m\<rparr>) = playlistView s"
  by (simp_all add: playlistView_def)

lemma playlistView_oncomplete: "playlistView (storeContent_oncomplete env b s) = playlistView s"
  by (simp add: storeContent_oncomplete_def Let_def playlistView_trimCache playlistView_cacheSizeBytes)

lemma playlistView_storeContent: "playlistView (snd (storeContent env u lu b s)) = playlistView s"
  by (simp add: storeContent_def playlistView_def split: option.split)

lemma playlistView_updateCachedUrl: "playlistView (updateCachedUrl env u lu s) = playlistView s"
  by (simp add: updateCachedUrl_def playlistView_def revokeObjectURL_def Let_def split: option.split)

lemma playlistView_downloadContent: "playlistView (snd (downloadContent env u s)) = playlistView s"
proof -
  have "playlistView (s1\<lparr>blobCache := m\<rparr>) = playlistView s"
    if "storeContent env u lu b s = (st, s1)" for lu b m st s1
    using playlistView_storeContent [of env u lu b s] that by (simp add: playlistView_blobCache)
  then show ?thesis
    by (auto simp: downloadContent_def Let_def playlistView_oncomplete
        split: response.split option.split prod.split)
qed

lemma initDatabase_initialized: "isInitialized s \<Longrightarrow> initDatabase env s = s"
  by (simp add: initDatabase_def)

text \<open>Resolving or preloading content leaves the playlist store of an initialised service
  alone.\<close>

lemma playlistView_getLocalContentUrl:
  assumes "isInitialized s"
  shows "playlistView (snd (getLocalContentUrl env u s)) = playlistView s"
proof -
  have d: "playlistView s1 = playlistView s" if "downloadContent env u s = (r, s1)" for r s1
    using playlistView_downloadContent [of env u s] that by simp
  show ?thesis
    by (auto simp: getLocalContentUrl_def Let_def initDatabase_initialized [OF assms]
        playlistView_blobCache playlistView_updateCachedUrl d
        split: promise.split option.split prod.split sum.split)
qed

lemma getCachedPlaylist_view:
  assumes "playlistView s = playlistView s'" and "isInitialized s"
  shows "getCachedPlaylist env k s = getCachedPlaylist env k s'"
proof -
  from assms have i: "isInitialized s'" by (simp add: playlistView_def)
  from assms(1) have "map_option playlistStore (db s) = map_option playlistStore (db s')"
    by (simp add: playlistView_def)
  then show ?thesis
    by (cases "db s"; cases "db s'")
       (auto simp: getCachedPlaylist_def ensureInitialized_def
          initDatabase_initialized [OF assms(2)] initDatabase_initialized [OF i] assms(2) i)
qed

text \<open>
  C9, as stated: for every playlist, \<open>getCachedPlaylist\<close> with the playlist's id returns
  what \<open>cachePlaylist\<close> stored. A playlist whose id is the empty string is stored, but
  \<open>getCachedPlaylist\<close> answers an empty id with \<open>null\<close> before it looks at the store.
\<close>

theorem playlist_round_trip_counterexample:
  "getCachedPlaylist quietEnv (id' (samplePlaylist [] [sampleItem ''a'' Fade 1]))
     (fst (cachePlaylist quietEnv (samplePlaylist [] [sampleItem ''a'' Fade 1])
            (openedContentSyncService [] []))) = None
   \<and> map_option playlistStore
       (db (fst (cachePlaylist quietEnv (samplePlaylist [] [sampleItem ''a'' Fade 1])
            (openedContentSyncService [] []))))
     = Some [Playlist.extend (samplePlaylist [] [sampleItem ''a'' Fade 1]) \<lparr>timestamp' = 1000\<rparr>]"
  by (simp add: getCachedPlaylist_def samplePlaylist_def cachePlaylist_def quietEnv_def
      openedContentSyncService_def ensureInitialized_def storePut_def)

text \<open>
  C9, amended. For every playlist with a non-empty id, when the database is open and
  neither the write nor the read fails, \<open>getCachedPlaylist\<close> with the playlist's id returns
  the document \<open>cachePlaylist\<close> stored: every field of the playlist unchanged, the items in
  the same order, and the cache timestamp added. The content preloads that \<open>cachePlaylist\<close>
  triggers do not change what is returned.
\<close>

theorem playlist_round_trip:
  assumes "id' p \<noteq> []" and "db s = Some d" and "isInitialized s"
    and "\<not> transactionThrows env" and "\<not> writeFails env"
    and "\<not> transactionThrows env'" and "\<not> requestFails env'"
  shows "\<exists>c. getCachedPlaylist env' (id' p) (fst (cachePlaylist env p s)) = Some c
           \<and> Playlist.truncate c = p \<and> items c = items p \<and> timestamp' c = dateNow env
           \<and> (\<forall>env'' u. getCachedPlaylist env' (id' p)
                 (snd (getLocalContentUrl env'' u (fst (cachePlaylist env p s)))) = Some c)"
proof -
  let ?c = "Playlist.extend p \<lparr>timestamp' = dateNow env\<rparr>"
  have k: "id' ?c = id' p" by (simp add: Playlist.defs)
  have "fst (cachePlaylist env p s)
      = s\<lparr>db := Some (d\<lparr>playlistStore := storePut id' ?c (playlistStore d)\<rparr>)\<rparr>"
    using assms by (simp add: cachePlaylist_def ensureInitialized_def)
  then have g: "getCachedPlaylist env' (id' p) (fst (cachePlaylist env p s)) = Some ?c"
    using assms storeGet_storePut [of id' ?c "playlistStore d"]
    by (simp add: getCachedPlaylist_def ensureInitialized_def initDatabase_def k)
  have "getCachedPlaylist env' (id' p)
          (snd (getLocalContentUrl env'' u (fst (cachePlaylist env p s)))) = Some ?c" for env'' u
  proof -
    have i: "isInitialized (fst (cachePlaylist env p s))"
      using assms by (simp add: cachePlaylist_def ensureInitialized_def)
    then have "isInitialized (snd (getLocalContentUrl env'' u (fst (cachePlaylist env p s))))"
      using playlistView_getLocalContentUrl [OF i, of env'' u] by (simp add: playlistView_def)
    from getCachedPlaylist_view [OF playlistView_getLocalContentUrl [OF i] this] g
    show ?thesis by simp
  qed
  moreover have "Playlist.truncate ?c = p" "items ?c = items p" "timestamp' ?c = dateNow env"
    by (simp_all add: Playlist.defs)
  ultimately show ?thesis using g by blast
qed

theorem playlist_round_trip_witness:
  "map_option Playlist.truncate
     (getCachedPlaylist quietEnv ''P1''
        (fst (cachePlaylist quietEnv
               (samplePlaylist ''P1'' [sampleItem ''b'' Fade 1, sampleItem ''a'' Slide 2])
               (openedContentSyncService [] []))))
     = Some (samplePlaylist ''P1'' [sampleItem ''b'' Fade 1, sampleItem ''a'' Slide 2])"
proof -
  have h: "id' (samplePlaylist ''P1'' [sampleItem ''b'' Fade 1, sampleItem ''a'' Slide 2]) \<noteq> []"
    "db (openedContentSyncService [] []) = Some \<lparr>contentStore = [], playlistStore = []\<rparr>"
    "isInitialized (openedContentSyncService [] [])"
    "\<not> transactionThrows quietEnv" "\<not> writeFails quietEnv" "\<not> requestFails quietEnv"
    by (simp_all add: samplePlaylist_def openedContentSyncService_def quietEnv_def)
  have i: "id' (samplePlaylist ''P1'' [sampleItem ''b'' Fade 1, sampleItem ''a'' Slide 2]) = ''P1''"
    by (simp add: samplePlaylist_def)
  from playlist_round_trip [OF h(1) h(2) h(3) h(4) h(5) h(4) h(6)]
  show ?thesis unfolding i by auto
qed

section \<open>Fallback content\<close>

text \<open>
  C6, as stated: when the bundled document is unavailable, the newest cached playlist is
  returned whenever at least one playlist is cached, and the terminal error is surfaced only
  when the cache is empty. With a playlist in the store and the cursor request failing,
  \<open>getFallbackPlaylist\<close> emits \<open>null\<close> and the error is surfaced.
\<close>

theorem fallback_selection_counterexample:
  "getFallbackPlaylist (quietEnv\<lparr>requestFails := True\<rparr>)
     (openedContentSyncService []
        [Playlist.extend (samplePlaylist ''P2'' [sampleItem ''a'' Fade 1]) \<lparr>timestamp' = 5\<rparr>]) = None
   \<and> playbackError (loadFallbackContent (quietEnv\<lparr>requestFails := True\<rparr>)
       (openedContentSyncService []
          [Playlist.extend (samplePlaylist ''P2'' [sampleItem ''a'' Fade 1]) \<lparr>timestamp' = 5\<rparr>])
       initialPlaybackService)
     = Some ''No content available. Please check your connection or device configuration.''"
  by (simp add: getFallbackPlaylist_def loadFallbackContent_def quietEnv_def
      openedContentSyncService_def ensureInitialized_def)

text \<open>
  C6, amended. Fallback content selection first tries the bundled document and returns it
  when it is available. When it is not, and the playlist store is open and can be read, the
  newest cached playlist by cache timestamp is returned whenever at least one playlist is
  cached, whichever playlist was asked for. The terminal error is surfaced exactly when the
  bundled document is unavailable and the cache yields nothing (the store is not open, cannot
  be read, or is empty); the engine is then left as it was but for the error, with no timer
  armed.
\<close>

theorem fallback_selection:
  "(fallbackDocument env = Response p \<longrightarrow> getFallbackPlaylist env css = Some p)
   \<and> (fallbackDocument env = Failed \<and> db css = Some d \<and> ensureInitialized env css = Resolves True
        \<and> \<not> transactionThrows env \<and> \<not> requestFails env \<and> playlistStore d \<noteq> []
       \<longrightarrow> (\<exists>c\<in>set (playlistStore d). getFallbackPlaylist env css = Some (Playlist.truncate c)
              \<and> (\<forall>c'\<in>set (playlistStore d). timestamp' c' \<le> timestamp' c)))
   \<and> (playbackError (loadFallbackContent env css s) \<noteq> None
        \<longleftrightarrow> fallbackDocument env = Failed
            \<and> (case db css of
                  None \<Rightarrow> True
                | Some d \<Rightarrow> ensureInitialized env css \<noteq> Resolves True \<or> transactionThrows env
                            \<or> requestFails env \<or> playlistStore d = []))
   \<and> (playbackError (loadFallbackContent env css s) \<noteq> None
        \<longrightarrow> loadFallbackContent env css s
              = s\<lparr>playbackError := Some ''No content available. Please check your connection or device configuration.''\<rparr>)"
proof -
  have a: "fallbackDocument env = Response p \<longrightarrow> getFallbackPlaylist env css = Some p"
    by (simp add: getFallbackPlaylist_def)
  have b: "fallbackDocument env = Failed \<and> db css = Some d \<and> ensureInitialized env css = Resolves True
        \<and> \<not> transactionThrows env \<and> \<not> requestFails env \<and> playlistStore d \<noteq> []
       \<longrightarrow> (\<exists>c\<in>set (playlistStore d). getFallbackPlaylist env css = Some (Playlist.truncate c)
              \<and> (\<forall>c'\<in>set (playlistStore d). timestamp' c' \<le> timestamp' c))"
  proof (intro impI, elim conjE)
    assume h: "fallbackDocument env = Failed" "db css = Some d"
      "ensureInitialized env css = Resolves True" "\<not> transactionThrows env" "\<not> requestFails env"
      and ne: "playlistStore d \<noteq> []"
    from newestFirst_head [OF ne] obtain c rest where
      c: "newestFirst d = c # rest" "c \<in> set (playlistStore d)"
         "\<forall>c'\<in>set (playlistStore d). timestamp' c' \<le> timestamp' c" by blast
    have "getFallbackPlaylist env css = Some (Playlist.truncate c)"
      using h c(1) by (simp add: getFallbackPlaylist_def)
    with c show "\<exists>c\<in>set (playlistStore d). getFallbackPlaylist env css = Some (Playlist.truncate c)
              \<and> (\<forall>c'\<in>set (playlistStore d). timestamp' c' \<le> timestamp' c)" by blast
  qed
  have none_iff: "getFallbackPlaylist env css = None
        \<longleftrightarrow> fallbackDocument env = Failed
            \<and> (case db css of
                  None \<Rightarrow> True
                | Some d \<Rightarrow> ensureInitialized env css \<noteq> Resolves True \<or> transactionThrows env
                            \<or> requestFails env \<or> playlistStore d = [])"
  proof (cases "fallbackDocument env")
    case (Response q)
    then show ?thesis by (simp add: getFallbackPlaylist_def)
  next
    case Failed
    show ?thesis
    proof (cases "db css")
      case None
      with Failed show ?thesis by (simp add: getFallbackPlaylist_def)
    next
      case (Some d')
      show ?thesis
      proof (cases "playlistStore d' = []")
        case True
        then have "newestFirst d' = []" by (simp add: newestFirst_def)
        with Failed Some True show ?thesis
          by (auto simp: getFallbackPlaylist_def split: promise.splits)
      next
        case False
        from newestFirst_head [OF False] obtain c rest where "newestFirst d' = c # rest" by blast
        with Failed Some False show ?thesis
          by (auto simp: getFallbackPlaylist_def split: promise.splits)
      qed
    qed
  qed
  have err: "playbackError (loadFallbackContent env css s) \<noteq> None
       \<longleftrightarrow> getFallbackPlaylist env css = None"
  proof (cases "getFallbackPlaylist env css")
    case None
    then show ?thesis by (simp add: loadFallbackContent_def)
  next
    case (Some q)
    have "playbackError (playCurrentItem t) = playbackError t" for t
      by (simp add: playCurrentItem_def updatePlayerState_def Let_def preloadNextItem_def
          preloadContent_def split: option.split)
    with Some show ?thesis
      by (simp add: loadFallbackContent_def updatePlayerState_def Let_def)
  qed
  have d: "playbackError (loadFallbackContent env css s) \<noteq> None
        \<longrightarrow> loadFallbackContent env css s
              = s\<lparr>playbackError := Some ''No content available. Please check your connection or device configuration.''\<rparr>"
    unfolding err by (simp add: loadFallbackContent_def)
  have c: "playbackError (loadFallbackContent env css s) \<noteq> None
        \<longleftrightarrow> fallbackDocument env = Failed
            \<and> (case db css of
                  None \<Rightarrow> True
                | Some d \<Rightarrow> ensureInitialized env css \<noteq> Resolves True \<or> transactionThrows env
                            \<or> requestFails env \<or> playlistStore d = [])"
    by (simp only: err none_iff)
  show ?thesis by (intro conjI; fact)
qed

text \<open>With two playlists cached and no bundled document, the one cached last is the
  fallback; a bundled document wins over the cache; with neither, the engine keeps its
  state and shows the error.\<close>

theorem fallback_selection_witness:
  "getFallbackPlaylist quietEnv
     (openedContentSyncService []
        [Playlist.extend (samplePlaylist ''P9'' [sampleItem ''b'' Fade 1]) \<lparr>timestamp' = 9\<rparr>,
         Playlist.extend (samplePlaylist ''P2'' [sampleItem ''a'' Fade 1]) \<lparr>timestamp' = 5\<rparr>])
     = Some (samplePlaylist ''P9'' [sampleItem ''b'' Fade 1])
   \<and> getFallbackPlaylist (quietEnv\<lparr>fallbackDocument := Response (samplePlaylist ''F'' [sampleItem ''f'' Fade 1])\<rparr>)
       (openedContentSyncService [] [])
     = Some (samplePlaylist ''F'' [sampleItem ''f'' Fade 1])
   \<and> loadFallbackContent quietEnv (openedContentSyncService [] []) initialPlaybackService
     = initialPlaybackService\<lparr>playbackError :=
         Some ''No content available. Please check your connection or device configuration.''\<rparr>"
proof -
  let ?c9 = "Playlist.extend (samplePlaylist ''P9'' [sampleItem ''b'' Fade 1]) \<lparr>timestamp' = 9\<rparr>"
  let ?c5 = "Playlist.extend (samplePlaylist ''P2'' [sampleItem ''a'' Fade 1]) \<lparr>timestamp' = 5\<rparr>"
  let ?css = "openedContentSyncService [] [?c9, ?c5]"
  let ?d = "\<lparr>contentStore = [], playlistStore = [?c9, ?c5]\<rparr>"
  have h: "fallbackDocument quietEnv = Failed \<and> db ?css = Some ?d
      \<and> ensureInitialized quietEnv ?css = Resolves True
      \<and> \<not> transactionThrows quietEnv \<and> \<not> requestFails quietEnv \<and> playlistStore ?d \<noteq> []"
    by (simp add: quietEnv_def openedContentSyncService_def ensureInitialized_def)
  with fallback_selection [of quietEnv _ ?css ?d]
  obtain c where c: "c \<in> set (playlistStore ?d)"
      "getFallbackPlaylist quietEnv ?css = Some (Playlist.truncate c)"
      "\<forall>c'\<in>set (playlistStore ?d). timestamp' c' \<le> timestamp' c"
    by blast
  have "c \<noteq> ?c5"
  proof
    assume "c = ?c5"
    with c(3) have "timestamp' ?c9 \<le> timestamp' ?c5" by simp
    then show False by (simp add: Playlist.defs)
  qed
  with c(1) have "c = ?c9" by auto
  with c(2) have 1: "getFallbackPlaylist quietEnv ?css = Some (samplePlaylist ''P9'' [sampleItem ''b'' Fade 1])"
    by (simp add: Playlist.defs samplePlaylist_def)
  let ?env = "quietEnv\<lparr>fallbackDocument := Response (samplePlaylist ''F'' [sampleItem ''f'' Fade 1])\<rparr>"
  have "fallbackDocument ?env = Response (samplePlaylist ''F'' [sampleItem ''f'' Fade 1])" by simp
  with fallback_selection [of ?env "samplePlaylist ''F'' [sampleItem ''f'' Fade 1]" "openedContentSyncService [] []"]
  have 2: "getFallbackPlaylist ?env (openedContentSyncService [] [])
      = Some (samplePlaylist ''F'' [sampleItem ''f'' Fade 1])" by blast
  have "fallbackDocument quietEnv = Failed
      \<and> (case db (openedContentSyncService [] []) of None \<Rightarrow> True
          | Some d \<Rightarrow> ensureInitialized quietEnv (openedContentSyncService [] []) \<noteq> Resolves True
              \<or> transactionThrows quietEnv \<or> requestFails quietEnv \<or> playlistStore d = [])"
    by (simp add: quietEnv_def openedContentSyncService_def)
  with fallback_selection [of quietEnv _ "openedContentSyncService [] []" _ initialPlaybackService]
  have 3: "loadFallbackContent quietEnv (openedContentSyncService [] []) initialPlaybackService
     = initialPlaybackService\<lparr>playbackError :=
         Some ''No content available. Please check your connection or device configuration.''\<rparr>"
    by blast
  from 1 2 3 show ?thesis by (intro conjI)
qed

section \<open>Eviction\<close>

lemma totalSize_simps [simp]: "totalSize [] = 0" "totalSize (c # cs) = int (size' c) + totalSize cs"
  by (simp_all add: totalSize_def)

lemma evict_cacheSizeBytes: "cacheSizeBytes (evict c s) = cacheSizeBytes s"
  by (simp add: evict_def revokeObjectURL_def Let_def)

lemma fold_evict_cacheSizeBytes: "cacheSizeBytes (fold evict xs s) = cacheSizeBytes s"
  by (induction xs arbitrary: s) (simp_all add: evict_cacheSizeBytes)

lemma trimCursor_prefix:
  assumes nd: "\<not> deleteThrows env"
  shows "\<exists>k\<le>length cs.
      trimCursor env cs n s
        = (fold evict (take k cs) s)\<lparr>cacheSizeBytes := cacheSizeBytes s - (n + totalSize (take k cs))\<rparr>
      \<and> (\<forall>j<k. cacheSizeBytes s - (n + totalSize (take j cs)) > targetSize)
      \<and> (k < length cs \<longrightarrow> cacheSizeBytes s - (n + totalSize (take k cs)) \<le> targetSize)"
proof (induction cs arbitrary: n s)
  case Nil
  show ?case by simp
next
  case (Cons c cs)
  show ?case
  proof (cases "cacheSizeBytes s - n > targetSize")
    case False
    then have "trimCursor env (c # cs) n s
        = (fold evict (take 0 (c # cs)) s)\<lparr>cacheSizeBytes := cacheSizeBytes s - (n + totalSize (take 0 (c # cs)))\<rparr>
      \<and> (\<forall>j<0. cacheSizeBytes s - (n + totalSize (take j (c # cs))) > targetSize)
      \<and> (0 < length (c # cs) \<longrightarrow> cacheSizeBytes s - (n + totalSize (take 0 (c # cs))) \<le> targetSize)"
      by simp
    then show ?thesis by blast
  next
    case True
    from Cons.IH [of "n + int (size' c)" "evict c s"] obtain k where k: "k \<le> length cs"
      "trimCursor env cs (n + int (size' c)) (evict c s)
        = (fold evict (take k cs) (evict c s))\<lparr>cacheSizeBytes :=
             cacheSizeBytes (evict c s) - (n + int (size' c) + totalSize (take k cs))\<rparr>"
      "\<forall>j<k. cacheSizeBytes (evict c s) - (n + int (size' c) + totalSize (take j cs)) > targetSize"
      "k < length cs \<longrightarrow> cacheSizeBytes (evict c s) - (n + int (size' c) + totalSize (take k cs)) \<le> targetSize"
      by blast
    have 1: "Suc k \<le> length (c # cs)" using k(1) by simp
    have sz: "totalSize (take (Suc j) (c # cs)) = int (size' c) + totalSize (take j cs)" for j
      by simp
    have 2: "trimCursor env (c # cs) n s
        = (fold evict (take (Suc k) (c # cs)) s)\<lparr>cacheSizeBytes :=
             cacheSizeBytes s - (n + totalSize (take (Suc k) (c # cs)))\<rparr>"
      using True nd k(2) by (simp add: evict_cacheSizeBytes add.assoc)
    have 3: "\<forall>j<Suc k. cacheSizeBytes s - (n + totalSize (take j (c # cs))) > targetSize"
    proof (intro allI impI)
      fix j assume "j < Suc k"
      show "cacheSizeBytes s - (n + totalSize (take j (c # cs))) > targetSize"
      proof (cases j)
        case 0
        with True show ?thesis by simp
      next
        case (Suc j')
        with \<open>j < Suc k\<close> have "j' < k" by simp
        with k(3) have "cacheSizeBytes (evict c s) - (n + int (size' c) + totalSize (take j' cs)) > targetSize"
          by blast
        then show ?thesis unfolding Suc sz by (simp add: evict_cacheSizeBytes add.assoc)
      qed
    qed
    have 4: "Suc k < length (c # cs) \<longrightarrow> cacheSizeBytes s - (n + totalSize (take (Suc k) (c # cs))) \<le> targetSize"
      using k(4) unfolding sz by (simp add: evict_cacheSizeBytes add.assoc)
    from 1 2 3 4 show ?thesis by blast
  qed
qed

lemma fold_evict_db:
  "db s = Some d \<Longrightarrow>
   db (fold evict xs s) = Some (d\<lparr>contentStore := filter (\<lambda>c. url c \<notin> url ` set xs) (contentStore d)\<rparr>)"
proof (induction xs arbitrary: s d)
  case Nil
  then show ?case by simp
next
  case (Cons x xs)
  have "db (evict x s) = Some (d\<lparr>contentStore := storeDelete url (url x) (contentStore d)\<rparr>)"
    using Cons.prems by (simp add: evict_def revokeObjectURL_def Let_def)
  from Cons.IH [OF this] show ?case
    by (simp add: storeDelete_def conj_commute)
qed

lemma fold_evict_revoked:
  "revoked (fold evict xs s)
     = revoked s @ map localUrl (filter (\<lambda>x. localUrl x \<noteq> [] \<and> startsWithBlob (localUrl x)) xs)"
  by (induction xs arbitrary: s) (simp_all add: evict_def revokeObjectURL_def Let_def)

lemma fold_evict_blobCache:
  "blobCache (fold evict xs s) u = (if u \<in> url ` set xs then None else blobCache s u)"
  by (induction xs arbitrary: s) (auto simp: evict_def revokeObjectURL_def Let_def)

lemma totalSize_insort_key: "totalSize (insort_key f x xs) = int (size' x) + totalSize xs"
  by (induction xs) simp_all

lemma totalSize_sort_key: "totalSize (sort_key f xs) = totalSize xs"
  by (induction xs) (simp_all add: totalSize_insort_key)

lemma timestampCursor_oldest_first:
  assumes "x \<in> set (take k (timestampCursor d))" "y \<in> set (drop k (timestampCursor d))"
  shows "timestamp x \<le> timestamp y"
proof -
  let ?f = "\<lambda>c::CachedContent. (timestamp c, url c)"
  have "sorted (map ?f (timestampCursor d))"
    unfolding timestampCursor_def by (rule sorted_sort_key)
  then have "sorted (map ?f (take k (timestampCursor d)) @ map ?f (drop k (timestampCursor d)))"
    by (simp only: map_append [symmetric] append_take_drop_id)
  with assms have "?f x \<le> ?f y" by (auto simp: sorted_append)
  then show ?thesis by (auto simp: less_eq_prod_def)
qed

lemma trimCursor_deleteThrows:
  "deleteThrows env \<Longrightarrow> trimCursor env cs n s = s\<lparr>cacheSizeBytes := cacheSizeBytes s - n\<rparr>"
  by (induction cs) simp_all

lemma targetSize_nonneg: "0 \<le> targetSize"
  by (simp add: targetSize_def MAX_CACHE_SIZE_def)

text \<open>
  C4, as stated: whenever a store pushes the tracked size above the budget, the eviction
  pass removes the oldest records down to 70% of the budget and revokes the live handle of
  each removed record. With three records of 550 MB in all, the pass removes nothing when
  its cursor request fails; and when it runs, it revokes the URL written in the oldest
  record and drops that record from the tracking map, where a different, live URL was
  held, which is not revoked.
\<close>

theorem store_triggers_eviction_counterexample:
  "map_option contentStore
     (db (storeContent_oncomplete (quietEnv\<lparr>cursorFails := True\<rparr>)
            \<lparr>blobSize = 157286400, blobType = ''image/png''\<rparr>
            ((openedContentSyncService
                [sampleContent ''c'' 30 157286400, sampleContent ''a'' 10 209715200,
                 sampleContent ''b'' 20 209715200] [])
             \<lparr>cacheSizeBytes := 419430400\<rparr>)))
     = Some [sampleContent ''c'' 30 157286400, sampleContent ''a'' 10 209715200,
             sampleContent ''b'' 20 209715200]
   \<and> cacheSizeBytes
       (storeContent_oncomplete (quietEnv\<lparr>cursorFails := True\<rparr>)
            \<lparr>blobSize = 157286400, blobType = ''image/png''\<rparr>
            ((openedContentSyncService
                [sampleContent ''c'' 30 157286400, sampleContent ''a'' 10 209715200,
                 sampleContent ''b'' 20 209715200] [])
             \<lparr>cacheSizeBytes := 419430400\<rparr>)) = 576716800
   \<and> MAX_CACHE_SIZE < 576716800
   \<and> revoked
       (storeContent_oncomplete quietEnv \<lparr>blobSize = 157286400, blobType = ''image/png''\<rparr>
            ((openedContentSyncService
                [sampleContent ''c'' 30 157286400, sampleContent ''a'' 10 209715200,
                 sampleContent ''b'' 20 209715200] [])
             \<lparr>cacheSizeBytes := 419430400,
               blobCache := [''https://cdn.example/a'' \<mapsto> ''blob:new'']\<rparr>)) = [''blob:a'']
   \<and> blobCache
       (storeContent_oncomplete quietEnv \<lparr>blobSize = 157286400, blobType = ''image/png''\<rparr>
            ((openedContentSyncService
                [sampleContent ''c'' 30 157286400, sampleContent ''a'' 10 209715200,
                 sampleContent ''b'' 20 209715200] [])
             \<lparr>cacheSizeBytes := 419430400,
               blobCache := [''https://cdn.example/a'' \<mapsto> ''blob:new'']\<rparr>))
       ''https://cdn.example/a'' = None"
proof -
  have cur: "timestampCursor \<lparr>contentStore = [sampleContent ''c'' 30 157286400,
        sampleContent ''a'' 10 209715200, sampleContent ''b'' 20 209715200], playlistStore = []\<rparr>
     = [sampleContent ''a'' 10 209715200, sampleContent ''b'' 20 209715200,
        sampleContent ''c'' 30 157286400]"
    by (simp add: timestampCursor_def sampleContent_def less_eq_prod_def)
  have fail: "storeContent_oncomplete (quietEnv\<lparr>cursorFails := True\<rparr>)
            \<lparr>blobSize = 157286400, blobType = ''image/png''\<rparr>
            ((openedContentSyncService
                [sampleContent ''c'' 30 157286400, sampleContent ''a'' 10 209715200,
                 sampleContent ''b'' 20 209715200] [])
             \<lparr>cacheSizeBytes := 419430400\<rparr>)
      = (openedContentSyncService
                [sampleContent ''c'' 30 157286400, sampleContent ''a'' 10 209715200,
                 sampleContent ''b'' 20 209715200] [])
             \<lparr>cacheSizeBytes := 576716800\<rparr>"
    by (simp add: storeContent_oncomplete_def trimCache_def Let_def MAX_CACHE_SIZE_def
        openedContentSyncService_def quietEnv_def)
  have run: "storeContent_oncomplete quietEnv \<lparr>blobSize = 157286400, blobType = ''image/png''\<rparr>
            ((openedContentSyncService
                [sampleContent ''c'' 30 157286400, sampleContent ''a'' 10 209715200,
                 sampleContent ''b'' 20 209715200] [])
             \<lparr>cacheSizeBytes := 419430400,
               blobCache := [''https://cdn.example/a'' \<mapsto> ''blob:new'']\<rparr>)
      = trimCursor quietEnv
          [sampleContent ''a'' 10 209715200, sampleContent ''b'' 20 209715200,
           sampleContent ''c'' 30 157286400] 0
          ((openedContentSyncService
                [sampleContent ''c'' 30 157286400, sampleContent ''a'' 10 209715200,
                 sampleContent ''b'' 20 209715200] [])
             \<lparr>cacheSizeBytes := 576716800,
               blobCache := [''https://cdn.example/a'' \<mapsto> ''blob:new'']\<rparr>)"
    by (simp add: storeContent_oncomplete_def trimCache_def Let_def MAX_CACHE_SIZE_def
        openedContentSyncService_def quietEnv_def cur)
  have q: "\<not> deleteThrows quietEnv" by (simp add: quietEnv_def)
  have 4: "revoked
       (storeContent_oncomplete quietEnv \<lparr>blobSize = 157286400, blobType = ''image/png''\<rparr>
            ((openedContentSyncService
                [sampleContent ''c'' 30 157286400, sampleContent ''a'' 10 209715200,
                 sampleContent ''b'' 20 209715200] [])
             \<lparr>cacheSizeBytes := 419430400,
               blobCache := [''https://cdn.example/a'' \<mapsto> ''blob:new'']\<rparr>)) = [''blob:a'']"
    unfolding run
    by (simp add: q targetSize_def MAX_CACHE_SIZE_def evict_def revokeObjectURL_def Let_def
        startsWithBlob_def sampleContent_def openedContentSyncService_def)
  have 5: "blobCache
       (storeContent_oncomplete quietEnv \<lparr>blobSize = 157286400, blobType = ''image/png''\<rparr>
            ((openedContentSyncService
                [sampleContent ''c'' 30 157286400, sampleContent ''a'' 10 209715200,
                 sampleContent ''b'' 20 209715200] [])
             \<lparr>cacheSizeBytes := 419430400,
               blobCache := [''https://cdn.example/a'' \<mapsto> ''blob:new'']\<rparr>))
       ''https://cdn.example/a'' = None"
    unfolding run
    by (simp add: q targetSize_def MAX_CACHE_SIZE_def evict_def revokeObjectURL_def Let_def
        startsWithBlob_def sampleContent_def openedContentSyncService_def)
  show ?thesis
    unfolding fail using 4 5 by (simp add: openedContentSyncService_def MAX_CACHE_SIZE_def)
qed

text \<open>
  C4, amended. When the completion of a store raises the tracked size above
  \<open>MAX_CACHE_SIZE\<close> and the eviction pass can open its transaction, its cursor does not fail
  and \<open>store.delete\<close> does not throw, the pass removes a prefix of the records in ascending
  order of their timestamp: a record is removed only while the tracked size less the sizes
  removed so far is still above 70% of the budget, and the pass stops at the first record
  met with that difference at or below the mark (or when no record is left). Every removed
  record is at most as recent as every record kept. In the callback that deletes a record,
  the blob URL written in the record is revoked, in the order of removal, and the record is
  dropped from the tracking map; so the live handle of a removed record is revoked whenever
  the tracking map held the URL written in the record. The tracked size is reduced by the
  sizes removed, and it ends at or below the mark whenever it did not exceed the total size
  of the stored records. When the transaction cannot be opened, the cursor request fails or
  \<open>store.delete\<close> throws, nothing is removed and nothing is revoked.
\<close>

theorem store_triggers_eviction:
  assumes "db s = Some d" and "distinct (map url (contentStore d))"
    and "cacheSizeBytes s + int (blobSize b) > MAX_CACHE_SIZE"
  shows "(\<not> trimTransactionThrows env \<and> \<not> cursorFails env \<and> \<not> deleteThrows env \<longrightarrow>
    (\<exists>k\<le>length (timestampCursor d).
      db (storeContent_oncomplete env b s)
        = Some (d\<lparr>contentStore := filter (\<lambda>c. c \<notin> set (take k (timestampCursor d))) (contentStore d)\<rparr>)
    \<and> (\<forall>j<k. cacheSizeBytes s + int (blobSize b) - totalSize (take j (timestampCursor d)) > targetSize)
    \<and> (k < length (timestampCursor d)
         \<longrightarrow> cacheSizeBytes s + int (blobSize b) - totalSize (take k (timestampCursor d)) \<le> targetSize)
    \<and> cacheSizeBytes (storeContent_oncomplete env b s)
        = cacheSizeBytes s + int (blobSize b) - totalSize (take k (timestampCursor d))
    \<and> (cacheSizeBytes s + int (blobSize b) \<le> totalSize (contentStore d)
         \<longrightarrow> cacheSizeBytes (storeContent_oncomplete env b s) \<le> targetSize)
    \<and> (\<forall>x\<in>set (take k (timestampCursor d)). \<forall>y\<in>set (drop k (timestampCursor d)).
          timestamp x \<le> timestamp y)
    \<and> revoked (storeContent_oncomplete env b s)
        = revoked s @ map localUrl (filter (\<lambda>x. localUrl x \<noteq> [] \<and> startsWithBlob (localUrl x))
                                      (take k (timestampCursor d)))
    \<and> (\<forall>x\<in>set (take k (timestampCursor d)).
          blobCache (storeContent_oncomplete env b s) (url x) = None)
    \<and> (\<forall>x\<in>set (take k (timestampCursor d)). \<forall>h.
          blobCache s (url x) = Some h \<and> h = localUrl x \<and> startsWithBlob h
          \<longrightarrow> h \<in> set (revoked (storeContent_oncomplete env b s)))))
   \<and> (trimTransactionThrows env \<or> cursorFails env \<or> deleteThrows env \<longrightarrow>
        storeContent_oncomplete env b s
          = s\<lparr>cacheSizeBytes := cacheSizeBytes s + int (blobSize b)\<rparr>)"
proof (intro conjI impI)
  let ?cur = "timestampCursor d"
  let ?s1 = "s\<lparr>cacheSizeBytes := cacheSizeBytes s + int (blobSize b)\<rparr>"
  let ?T = "cacheSizeBytes s + int (blobSize b)"
  {
    assume "trimTransactionThrows env \<or> cursorFails env \<or> deleteThrows env"
    then show "storeContent_oncomplete env b s = ?s1"
      using assms(1,3)
      by (auto simp: storeContent_oncomplete_def Let_def trimCache_def trimCursor_deleteThrows)
  }
  assume ok: "\<not> trimTransactionThrows env \<and> \<not> cursorFails env \<and> \<not> deleteThrows env"
  then have nd: "\<not> deleteThrows env" by simp
  have run: "storeContent_oncomplete env b s = trimCursor env ?cur 0 ?s1"
    using assms(1,3) ok by (simp add: storeContent_oncomplete_def Let_def trimCache_def)
  from trimCursor_prefix [OF nd, of ?cur 0 ?s1] obtain k where k: "k \<le> length ?cur"
    and eq: "trimCursor env ?cur 0 ?s1
        = (fold evict (take k ?cur) ?s1)\<lparr>cacheSizeBytes := ?T - totalSize (take k ?cur)\<rparr>"
    and above: "\<forall>j<k. ?T - totalSize (take j ?cur) > targetSize"
    and stop: "k < length ?cur \<longrightarrow> ?T - totalSize (take k ?cur) \<le> targetSize"
    by auto
  let ?rem = "take k ?cur"
  have sub: "set ?rem \<subseteq> set (contentStore d)"
    using set_take_subset [of k ?cur] by (simp add: timestampCursor_def)
  have inj: "inj_on url (set (contentStore d))"
    using assms(2) by (simp add: distinct_map)
  have flt: "filter (\<lambda>c. url c \<notin> url ` set ?rem) (contentStore d)
      = filter (\<lambda>c. c \<notin> set ?rem) (contentStore d)"
  proof (rule filter_cong [OF refl])
    fix c assume "c \<in> set (contentStore d)"
    with inj sub show "(url c \<notin> url ` set ?rem) = (c \<notin> set ?rem)"
      by (auto dest: inj_onD)
  qed
  have "db ?s1 = Some d" using assms(1) by simp
  from fold_evict_db [OF this, of ?rem]
  have 1: "db (storeContent_oncomplete env b s)
        = Some (d\<lparr>contentStore := filter (\<lambda>c. c \<notin> set ?rem) (contentStore d)\<rparr>)"
    unfolding run eq flt by simp
  have 4: "cacheSizeBytes (storeContent_oncomplete env b s) = ?T - totalSize ?rem"
    unfolding run eq by simp
  have 5: "?T \<le> totalSize (contentStore d)
         \<longrightarrow> cacheSizeBytes (storeContent_oncomplete env b s) \<le> targetSize"
  proof
    assume le: "?T \<le> totalSize (contentStore d)"
    show "cacheSizeBytes (storeContent_oncomplete env b s) \<le> targetSize"
    proof (cases "k < length ?cur")
      case True
      with stop 4 show ?thesis by simp
    next
      case False
      with k have "?rem = ?cur" by simp
      then have "totalSize ?rem = totalSize (contentStore d)"
        by (simp add: timestampCursor_def totalSize_sort_key)
      with le 4 targetSize_nonneg show ?thesis by simp
    qed
  qed
  have 6: "\<forall>x\<in>set ?rem. \<forall>y\<in>set (drop k ?cur). timestamp x \<le> timestamp y"
    using timestampCursor_oldest_first by blast
  have 7: "revoked (storeContent_oncomplete env b s)
        = revoked s @ map localUrl (filter (\<lambda>x. localUrl x \<noteq> [] \<and> startsWithBlob (localUrl x)) ?rem)"
    unfolding run eq by (simp add: fold_evict_revoked)
  have 8: "\<forall>x\<in>set ?rem. blobCache (storeContent_oncomplete env b s) (url x) = None"
    unfolding run eq by (simp add: fold_evict_blobCache)
  have 9: "\<forall>x\<in>set ?rem. \<forall>h. blobCache s (url x) = Some h \<and> h = localUrl x \<and> startsWithBlob h
          \<longrightarrow> h \<in> set (revoked (storeContent_oncomplete env b s))"
  proof (intro ballI allI impI)
    fix x h assume x: "x \<in> set ?rem"
      and h: "blobCache s (url x) = Some h \<and> h = localUrl x \<and> startsWithBlob h"
    then have "localUrl x \<noteq> []" by (auto simp: startsWithBlob_def)
    with x h show "h \<in> set (revoked (storeContent_oncomplete env b s))"
      unfolding 7 by auto
  qed
  from k 1 above stop 4 5 6 7 8 9
  show "\<exists>k\<le>length (timestampCursor d).
      db (storeContent_oncomplete env b s)
        = Some (d\<lparr>contentStore := filter (\<lambda>c. c \<notin> set (take k (timestampCursor d))) (contentStore d)\<rparr>)
    \<and> (\<forall>j<k. cacheSizeBytes s + int (blobSize b) - totalSize (take j (timestampCursor d)) > targetSize)
    \<and> (k < length (timestampCursor d)
         \<longrightarrow> cacheSizeBytes s + int (blobSize b) - totalSize (take k (timestampCursor d)) \<le> targetSize)
    \<and> cacheSizeBytes (storeContent_oncomplete env b s)
        = cacheSizeBytes s + int (blobSize b) - totalSize (take k (timestampCursor d))
    \<and> (cacheSizeBytes s + int (blobSize b) \<le> totalSize (contentStore d)
         \<longrightarrow> cacheSizeBytes (storeContent_oncomplete env b s) \<le> targetSize)
    \<and> (\<forall>x\<in>set (take k (timestampCursor d)). \<forall>y\<in>set (drop k (timestampCursor d)).
          timestamp x \<le> timestamp y)
    \<and> revoked (storeContent_oncomplete env b s)
        = revoked s @ map localUrl (filter (\<lambda>x. localUrl x \<noteq> [] \<and> startsWithBlob (localUrl x))
                                      (take k (timestampCursor d)))
    \<and> (\<forall>x\<in>set (take k (timestampCursor d)).
          blobCache (storeContent_oncomplete env b s) (url x) = None)
    \<and> (\<forall>x\<in>set (take k (timestampCursor d)). \<forall>h.
          blobCache s (url x) = Some h \<and> h = localUrl x \<and> startsWithBlob h
          \<longrightarrow> h \<in> set (revoked (storeContent_oncomplete env b s)))"
    by blast
qed

text \<open>Two records of 200 MB and a new one of 150 MB: the oldest record goes, its URL, which
  the tracking map holds, is revoked, and 350 MB remain.\<close>

theorem store_triggers_eviction_witness:
  "cacheSizeBytes (storeContent_oncomplete quietEnv \<lparr>blobSize = 157286400, blobType = ''image/png''\<rparr>
     ((openedContentSyncService
         [sampleContent ''c'' 30 157286400, sampleContent ''a'' 10 209715200,
          sampleContent ''b'' 20 209715200] [])
      \<lparr>cacheSizeBytes := 419430400, blobCache := [''https://cdn.example/a'' \<mapsto> ''blob:a'']\<rparr>))
     \<le> targetSize
   \<and> revoked (storeContent_oncomplete quietEnv \<lparr>blobSize = 157286400, blobType = ''image/png''\<rparr>
     ((openedContentSyncService
         [sampleContent ''c'' 30 157286400, sampleContent ''a'' 10 209715200,
          sampleContent ''b'' 20 209715200] [])
      \<lparr>cacheSizeBytes := 419430400, blobCache := [''https://cdn.example/a'' \<mapsto> ''blob:a'']\<rparr>))
     = [''blob:a'']"
proof -
  let ?cs = "[sampleContent ''c'' 30 157286400, sampleContent ''a'' 10 209715200,
          sampleContent ''b'' 20 209715200]"
  let ?d = "\<lparr>contentStore = ?cs, playlistStore = []\<rparr>"
  let ?s = "(openedContentSyncService ?cs [])
      \<lparr>cacheSizeBytes := 419430400, blobCache := [''https://cdn.example/a'' \<mapsto> ''blob:a'']\<rparr>"
  let ?b = "\<lparr>blobSize = 157286400, blobType = ''image/png''\<rparr>"
  let ?cur = "[sampleContent ''a'' 10 209715200, sampleContent ''b'' 20 209715200, sampleContent ''c'' 30 157286400]"
  have cur: "timestampCursor ?d = ?cur"
    by (simp add: timestampCursor_def sampleContent_def less_eq_prod_def)
  have h1: "db ?s = Some ?d" by (simp add: openedContentSyncService_def)
  have h2: "distinct (map url (contentStore ?d))" by (simp add: sampleContent_def)
  have h3: "cacheSizeBytes ?s + int (blobSize ?b) > MAX_CACHE_SIZE"
    by (simp add: MAX_CACHE_SIZE_def)
  have h4: "cacheSizeBytes ?s + int (blobSize ?b) \<le> totalSize (contentStore ?d)"
    by (simp add: totalSize_def sampleContent_def)
  have h5: "\<not> trimTransactionThrows quietEnv \<and> \<not> cursorFails quietEnv \<and> \<not> deleteThrows quietEnv"
    by (simp add: quietEnv_def)
  from store_triggers_eviction [OF h1 h2 h3, of quietEnv] h5
  obtain k where k: "k \<le> length (timestampCursor ?d)"
    and above: "\<forall>j<k. cacheSizeBytes ?s + int (blobSize ?b) - totalSize (take j (timestampCursor ?d)) > targetSize"
    and stop: "k < length (timestampCursor ?d)
         \<longrightarrow> cacheSizeBytes ?s + int (blobSize ?b) - totalSize (take k (timestampCursor ?d)) \<le> targetSize"
    and le: "cacheSizeBytes ?s + int (blobSize ?b) \<le> totalSize (contentStore ?d)
         \<longrightarrow> cacheSizeBytes (storeContent_oncomplete quietEnv ?b ?s) \<le> targetSize"
    and rev: "revoked (storeContent_oncomplete quietEnv ?b ?s)
        = revoked ?s @ map localUrl (filter (\<lambda>x. localUrl x \<noteq> [] \<and> startsWithBlob (localUrl x))
                                      (take k (timestampCursor ?d)))"
    by blast
  have "k \<noteq> 0"
  proof
    assume "k = 0"
    with stop show False by (simp add: cur totalSize_def targetSize_def MAX_CACHE_SIZE_def)
  qed
  moreover have "\<not> 1 < k"
  proof
    assume "1 < k"
    with above have "cacheSizeBytes ?s + int (blobSize ?b) - totalSize (take 1 (timestampCursor ?d)) > targetSize"
      by blast
    then show False
      unfolding cur by (simp add: totalSize_def targetSize_def MAX_CACHE_SIZE_def sampleContent_def)
  qed
  ultimately have k1: "k = 1" by simp
  have "revoked (storeContent_oncomplete quietEnv ?b ?s) = [''blob:a'']"
    unfolding rev k1 cur
    by (simp add: sampleContent_def startsWithBlob_def openedContentSyncService_def)
  with le h4 show ?thesis by simp
qed

section \<open>Further facts on resolution and loading\<close>

text \<open>The sorted search of \<open>startPlayback\<close> takes an active rule of lowest priority and, among
  those, of earliest start time.\<close>

lemma activeSchedule_lowest:
  assumes "schedule screen = Some sched" and "activeSchedule now screen = Some r"
  shows "r \<in> set (upcoming sched)
    \<and> isActiveDay (currentDay now) r \<and> isActiveTime (currentTime now) r
    \<and> (\<forall>r'\<in>set (upcoming sched).
          isActiveDay (currentDay now) r' \<and> isActiveTime (currentTime now) r'
          \<longrightarrow> priority r < priority r'
              \<or> (priority r = priority r' \<and> start_time r \<le> start_time r'))"
proof -
  let ?P = "\<lambda>s. currentDay now \<in> set (days s)
              \<and> currentTime now \<ge> start_time s \<and> currentTime now \<le> end_time s"
  let ?k = "\<lambda>s::ScheduleItem. (priority s, start_time s)"
  let ?xs = "sort_key ?k (upcoming sched)"
  from assms have f: "find ?P ?xs = Some r"
    by (simp add: activeSchedule_def sortedSchedules_sort split: if_splits)
  then obtain i where i: "i < length ?xs" "?P (?xs ! i)" "r = ?xs ! i" "\<forall>j<i. \<not> ?P (?xs ! j)"
    unfolding find_Some_iff by blast
  have srt: "sorted (map ?k ?xs)" by (rule sorted_sort_key)
  have mem: "r \<in> set (upcoming sched)"
    using i(1,3) nth_mem [of i ?xs] by simp
  have act: "isActiveDay (currentDay now) r \<and> isActiveTime (currentTime now) r"
    using i(2,3) by (simp add: isActiveDay_def isActiveTime_def)
  have "priority r < priority r' \<or> (priority r = priority r' \<and> start_time r \<le> start_time r')"
    if r': "r' \<in> set (upcoming sched)"
      "isActiveDay (currentDay now) r' \<and> isActiveTime (currentTime now) r'" for r'
  proof -
    from r'(1) have "r' \<in> set ?xs" by simp
    then obtain j where j: "j < length ?xs" "?xs ! j = r'" unfolding in_set_conv_nth by blast
    from r'(2) j(2) have "?P (?xs ! j)" by (simp add: isActiveDay_def isActiveTime_def)
    with i(4) have ij: "i \<le> j" by (meson not_le)
    have "map ?k ?xs ! i \<le> map ?k ?xs ! j"
      using j(1) by (intro sorted_nth_mono [OF srt ij]) simp
    moreover have "map ?k ?xs ! i = ?k r" using i(1,3) by (simp only: nth_map)
    moreover have "map ?k ?xs ! j = ?k r'" using j by (simp only: nth_map)
    ultimately have "?k r \<le> ?k r'" by (simp only:)
    then show ?thesis by (auto simp: less_eq_prod_def)
  qed
  with mem act show ?thesis by blast
qed

text \<open>Loading, skipping and restarting keep the index inside a non-empty playlist.\<close>

lemma engine_index_in_range:
  "items playlist \<noteq> [] \<Longrightarrow>
     currentPlaylist (processPlaylist env css playlist s) = Some playlist
     \<and> currentIndex (processPlaylist env css playlist s) < length (items playlist)"
  "currentPlaylist s = Some p \<Longrightarrow> items p \<noteq> [] \<Longrightarrow>
     \<exists>s'. transitionTimeout s = Some s' \<and> currentPlaylist s' = Some p
          \<and> currentIndex s' < length (items p)"
  "currentPlaylist s = Some p \<Longrightarrow> items p \<noteq> [] \<Longrightarrow>
     currentPlaylist (restartPlayback s) = Some p \<and> currentIndex (restartPlayback s) < length (items p)"
proof -
  have pa: "currentPlaylist (preloadAllContent q t) = currentPlaylist t
      \<and> currentIndex (preloadAllContent q t) = currentIndex t" for q t
  proof -
    have "currentPlaylist (fold f xs t) = currentPlaylist t \<and> currentIndex (fold f xs t) = currentIndex t"
      if "\<And>x u. currentPlaylist (f x u) = currentPlaylist u \<and> currentIndex (f x u) = currentIndex u"
      for f :: "PlaylistItem \<Rightarrow> PlaybackService \<Rightarrow> PlaybackService" and xs
      using that by (induction xs arbitrary: t) simp_all
    then show ?thesis
      by (simp add: preloadAllContent_def preloadContent_def Let_def)
  qed
  show "items playlist \<noteq> [] \<Longrightarrow>
     currentPlaylist (processPlaylist env css playlist s) = Some playlist
     \<and> currentIndex (processPlaylist env css playlist s) < length (items playlist)"
    by (simp add: processPlaylist_def Let_def playCurrentItem_def updatePlayerState_def pa
        preloadNextItem_fields)
  show "currentPlaylist s = Some p \<Longrightarrow> items p \<noteq> [] \<Longrightarrow>
     \<exists>s'. transitionTimeout s = Some s' \<and> currentPlaylist s' = Some p
          \<and> currentIndex s' < length (items p)"
    by (simp add: transitionTimeout_def Let_def playCurrentItem_def updatePlayerState_def
        preloadNextItem_fields)
  show "currentPlaylist s = Some p \<Longrightarrow> items p \<noteq> [] \<Longrightarrow>
     currentPlaylist (restartPlayback s) = Some p \<and> currentIndex (restartPlayback s) < length (items p)"
    by (simp add: restartPlayback_def clearTransition_def Let_def playCurrentItem_def
        updatePlayerState_def preloadNextItem_fields)
qed

end
